theory Spec2Isabelle
  imports Main "HOL-Library.AList"
begin

section \<open>Retry transport: \<open>fetchWithRetry\<close>\<close>

text \<open>
  \<^verbatim>\<open>async function fetchWithRetry(url, options, retries = 5, backoff = 1000)\<close>
  (src/content/page-script.js). One call of the browser's \<open>fetch\<close> either throws
  (a network-level failure) or yields a response with an \<open>ok\<close> flag. The network is a
  parameter: \<open>net url options k\<close> is what the \<open>k\<close>-th call of \<open>fetch\<close> (counted
  from 0) does. Time is not modelled; each \<open>setTimeout\<close> wait is recorded in a trace with
  its length in milliseconds, next to each call of \<open>fetch\<close>.
\<close>

record 'b response =
  ok :: bool
  status :: nat
  payload :: "'b option"

datatype 'b outcome = NetworkError | Responded "'b response"

datatype event = Attempt | Delay nat

text \<open>
  The object returned when no retry is left:
  \<^verbatim>\<open>{ ok: false, status: 0, text: ..., json: () => Promise.reject(err) }\<close>.
\<close>

definition sentinel :: "'b response" where
  "sentinel = \<lparr>ok = False, status = 0, payload = None\<rparr>"

text \<open>
  The body: the \<open>try\<close> block returns a response that is \<open>ok\<close> and throws on any
  other; the \<open>catch\<close> block handles both that throw and a throw of \<open>fetch\<close> itself. With
  \<open>retries > 0\<close> it waits \<open>backoff\<close> and calls itself with \<open>retries - 1\<close> and
  \<open>backoff * 2\<close>; otherwise it returns the sentinel. The argument \<open>k\<close> counts the calls
  of \<open>fetch\<close> made so far.
\<close>

fun fetchWithRetry ::
  "('u \<Rightarrow> 'q \<Rightarrow> nat \<Rightarrow> 'b outcome) \<Rightarrow> 'u \<Rightarrow> 'q \<Rightarrow> nat \<Rightarrow> nat \<Rightarrow> nat
     \<Rightarrow> 'b response \<times> event list" where
  "fetchWithRetry net url options k 0 backoff =
     (case net url options k of
        Responded r \<Rightarrow> if ok r then (r, [Attempt]) else (sentinel, [Attempt])
      | NetworkError \<Rightarrow> (sentinel, [Attempt]))"
| "fetchWithRetry net url options k (Suc retries) backoff =
     (let retry = (\<lambda>_::unit.
            let (r, tr) = fetchWithRetry net url options (Suc k) retries (backoff * 2)
            in (r, Attempt # Delay backoff # tr))
      in case net url options k of
           Responded r \<Rightarrow> if ok r then (r, [Attempt]) else retry ()
         | NetworkError \<Rightarrow> retry ())"

text \<open>Every caller uses the defaults \<open>retries = 5\<close>, \<open>backoff = 1000\<close>.\<close>

definition fetchWithRetry_default :: "('u \<Rightarrow> 'q \<Rightarrow> nat \<Rightarrow> 'b outcome) \<Rightarrow> 'u \<Rightarrow> 'q \<Rightarrow> 'b response \<times> event list" where
  "fetchWithRetry_default net url options = fetchWithRetry net url options 0 5 1000"

definition attempts :: "event list \<Rightarrow> nat" where
  "attempts tr = length (filter (\<lambda>e. e = Attempt) tr)"

fun delays :: "event list \<Rightarrow> nat list" where
  "delays [] = []"
| "delays (Attempt # tr) = delays tr"
| "delays (Delay d # tr) = d # delays tr"

text \<open>\<open>failed net url options k\<close>: the \<open>k\<close>-th call of \<open>fetch\<close> throws or is not \<open>ok\<close>.\<close>

definition failed :: "('u \<Rightarrow> 'q \<Rightarrow> nat \<Rightarrow> 'b outcome) \<Rightarrow> 'u \<Rightarrow> 'q \<Rightarrow> nat \<Rightarrow> bool" where
  "failed net url options k =
     (case net url options k of NetworkError \<Rightarrow> True | Responded r \<Rightarrow> \<not> ok r)"

text \<open>Three networks to run the transport on.\<close>

definition always_down :: "unit \<Rightarrow> unit \<Rightarrow> nat \<Rightarrow> unit outcome" where
  "always_down url options k = NetworkError"

definition always_500 :: "unit \<Rightarrow> unit \<Rightarrow> nat \<Rightarrow> unit outcome" where
  "always_500 url options k = Responded \<lparr>ok = False, status = 500, payload = None\<rparr>"

definition up_at_fourth :: "unit \<Rightarrow> unit \<Rightarrow> nat \<Rightarrow> unit outcome" where
  "up_at_fourth url options k =
     (if k < 3 then NetworkError else Responded \<lparr>ok = True, status = 200, payload = Some ()\<rparr>)"

subsection \<open>Properties of the retry transport\<close>

lemma attempts_simps [simp]:
  "attempts [] = 0" "attempts (Attempt # tr) = Suc (attempts tr)" "attempts (Delay d # tr) = attempts tr"
  by (simp_all add: attempts_def)

lemma fetchWithRetry_ok:
  "\<not> failed net url options k \<Longrightarrow>
   \<exists>r. net url options k = Responded r \<and> ok r \<and> fetchWithRetry net url options k n b = (r, [Attempt])"
  by (cases n) (auto simp: failed_def split: outcome.splits)

lemma fetchWithRetry_0_failed:
  "failed net url options k \<Longrightarrow> fetchWithRetry net url options k 0 b = (sentinel, [Attempt])"
  by (auto simp: failed_def split: outcome.splits)

lemma fetchWithRetry_Suc_failed:
  "failed net url options k \<Longrightarrow>
   fetchWithRetry net url options k (Suc n) b =
     (fst (fetchWithRetry net url options (Suc k) n (b * 2)),
      Attempt # Delay b # snd (fetchWithRetry net url options (Suc k) n (b * 2)))"
  by (auto simp: failed_def Let_def split: outcome.splits prod.splits)

declare fetchWithRetry.simps [simp del]

lemma fetchWithRetry_default_unfold:
  "fetchWithRetry_default net url options =
     fetchWithRetry net url options 0 (Suc (Suc (Suc (Suc (Suc 0))))) 1000"
proof -
  have "(5::nat) = Suc (Suc (Suc (Suc (Suc 0))))" by simp
  then show ?thesis unfolding fetchWithRetry_default_def by (rule arg_cong)
qed

lemma fetchWithRetry_attempts_le:
  "attempts (snd (fetchWithRetry net url options k n b)) \<le> Suc n"
proof (induction n arbitrary: k b)
  case 0
  show ?case
    using fetchWithRetry_ok [of net url options k 0 b] fetchWithRetry_0_failed [of net url options k b]
    by (cases "failed net url options k") auto
next
  case (Suc n)
  show ?case
    using fetchWithRetry_ok [of net url options k "Suc n" b] Suc [of "Suc k" "b * 2"]
    by (cases "failed net url options k") (auto simp: fetchWithRetry_Suc_failed)
qed

lemma fetchWithRetry_attempts_pos:
  "0 < attempts (snd (fetchWithRetry net url options k n b))"
  using fetchWithRetry_ok [of net url options k n b] 
  by (cases "failed net url options k"; cases n) (auto simp: fetchWithRetry_Suc_failed fetchWithRetry_0_failed)

lemma doubling_shift: "map (\<lambda>i. b * 2 * 2 ^ i) [0..<m] = map (\<lambda>i. b * 2 ^ i) [Suc 0..<Suc m]" for b :: nat
  by (induction m) auto

lemma fetchWithRetry_delays:
  "delays (snd (fetchWithRetry net url options k n b))
     = map (\<lambda>i. b * 2 ^ i) [0..<attempts (snd (fetchWithRetry net url options k n b)) - 1]"
proof (induction n arbitrary: k b)
  case 0
  show ?case
    using fetchWithRetry_ok [of net url options k 0 b] fetchWithRetry_0_failed [of net url options k b]
    by (cases "failed net url options k") auto
next
  case (Suc n)
  show ?case
  proof (cases "failed net url options k")
    case False
    then show ?thesis using fetchWithRetry_ok [of net url options k "Suc n" b] by auto
  next
    case True
    let ?tr = "snd (fetchWithRetry net url options (Suc k) n (b * 2))"
    obtain m where m: "attempts ?tr = Suc m"
      using fetchWithRetry_attempts_pos [of net url options "Suc k" n "b * 2"]
      by (cases "attempts ?tr") auto
    have "delays ?tr = map (\<lambda>i. b * 2 ^ i) [Suc 0..<Suc m]"
      using Suc [of "Suc k" "b * 2"] m by (simp add: doubling_shift)
    then show ?thesis
      using True m by (simp add: fetchWithRetry_Suc_failed upt_conv_Cons del: upt_Suc)
  qed
qed

lemma fetchWithRetry_success_at:
  "\<forall>i<j. failed net url options (k + i) \<Longrightarrow> \<not> failed net url options (k + j) \<Longrightarrow> j \<le> n \<Longrightarrow>
   \<exists>r. net url options (k + j) = Responded r \<and> ok r \<and>
       fst (fetchWithRetry net url options k n b) = r \<and>
       attempts (snd (fetchWithRetry net url options k n b)) = Suc j"
proof (induction j arbitrary: k n b)
  case 0
  then show ?case using fetchWithRetry_ok [of net url options k n b] by auto
next
  case (Suc j)
  then obtain n' where n: "n = Suc n'" "j \<le> n'" by (cases n) auto
  have f0: "failed net url options k" using Suc.prems(1) by (metis add.right_neutral zero_less_Suc)
  have "\<forall>i<j. failed net url options (Suc k + i)" using Suc.prems(1) by auto
  moreover have "\<not> failed net url options (Suc k + j)" using Suc.prems(2) by simp
  ultimately show ?case
    using Suc.IH [of "Suc k" n' "b * 2"] n f0 by (simp add: fetchWithRetry_Suc_failed)
qed

lemma fetchWithRetry_exhausted:
  "\<forall>i\<le>n. failed net url options (k + i) \<Longrightarrow>
   fst (fetchWithRetry net url options k n b) = sentinel \<and>
   attempts (snd (fetchWithRetry net url options k n b)) = Suc n"
proof (induction n arbitrary: k b)
  case 0
  then show ?case by (simp add: fetchWithRetry_0_failed)
next
  case (Suc n)
  have f0: "failed net url options k" using Suc.prems by (metis add.right_neutral le0)
  have "\<forall>i\<le>n. failed net url options (Suc k + i)" using Suc.prems by auto
  then show ?case using Suc.IH [of "Suc k" "b * 2"] f0 by (simp add: fetchWithRetry_Suc_failed)
qed

text \<open>
  Claim C3, as the code has it. For every network, URL and request, \<open>fetchWithRetry\<close>
  with its default arguments calls \<open>fetch\<close> at most 6 times (the first attempt and at
  most 5 retries); the waits before the retries are 1000 ms, 2000 ms, 4000 ms, ..., one per
  failed attempt that is retried, each twice the one before; a call whose attempts 1 to 3
  fail and whose attempt 4 is \<open>ok\<close> returns that fourth response, after waits of 1000,
  2000 and 4000 ms; and when all 6 attempts fail the result is the sentinel, whose
  \<open>ok\<close> is false: a value, not an exception.
\<close>

theorem fetchWithRetry_six_attempts:
  "attempts (snd (fetchWithRetry_default net url options)) \<le> 6 \<and>
   delays (snd (fetchWithRetry_default net url options)) =
     map (\<lambda>i. 1000 * 2 ^ i) [0..<attempts (snd (fetchWithRetry_default net url options)) - 1] \<and>
   (failed net url options 0 \<and> failed net url options 1 \<and> failed net url options 2 \<and>
    \<not> failed net url options 3 \<longrightarrow>
      net url options 3 = Responded (fst (fetchWithRetry_default net url options)) \<and>
      ok (fst (fetchWithRetry_default net url options)) \<and>
      attempts (snd (fetchWithRetry_default net url options)) = 4 \<and>
      delays (snd (fetchWithRetry_default net url options)) = [1000, 2000, 4000]) \<and>
   ((\<forall>k<6. failed net url options k) \<longrightarrow>
      fetchWithRetry_default net url options =
        (sentinel, [Attempt, Delay 1000, Attempt, Delay 2000, Attempt, Delay 4000,
                    Attempt, Delay 8000, Attempt, Delay 16000, Attempt]) \<and>
      \<not> ok (fst (fetchWithRetry_default net url options)))"
proof -
  let ?res = "fetchWithRetry_default net url options"
  have a: "attempts (snd ?res) \<le> 6"
    using fetchWithRetry_attempts_le [of net url options 0 5 1000]
    by (simp add: fetchWithRetry_default_def)
  have d: "delays (snd ?res) = map (\<lambda>i. 1000 * 2 ^ i) [0..<attempts (snd ?res) - 1]"
    unfolding fetchWithRetry_default_def by (rule fetchWithRetry_delays)
  have s: "net url options 3 = Responded (fst ?res) \<and> ok (fst ?res) \<and> attempts (snd ?res) = 4 \<and>
           delays (snd ?res) = [1000, 2000, 4000]"
    if f: "failed net url options 0 \<and> failed net url options 1 \<and> failed net url options 2 \<and>
        \<not> failed net url options 3"
  proof -
    have "\<forall>i<3. failed net url options (0 + i)"
      using f by (auto simp: less_Suc_eq numeral_3_eq_3 numeral_2_eq_2)
    then have "\<exists>r. net url options (0 + 3) = Responded r \<and> ok r \<and>
       fst (fetchWithRetry net url options 0 5 1000) = r \<and>
       attempts (snd (fetchWithRetry net url options 0 5 1000)) = Suc 3"
      using f by (intro fetchWithRetry_success_at) auto
    then have 1: "net url options 3 = Responded (fst ?res) \<and> ok (fst ?res) \<and> attempts (snd ?res) = 4"
      by (auto simp: fetchWithRetry_default_def)
    then have "delays (snd ?res) = map (\<lambda>i. 1000 * 2 ^ i) [0..<3]" using d by simp
    then show ?thesis using 1 by (simp add: upt_rec)
  qed
  have e: "?res = (sentinel, [Attempt, Delay 1000, Attempt, Delay 2000, Attempt, Delay 4000,
                    Attempt, Delay 8000, Attempt, Delay 16000, Attempt]) \<and> \<not> ok (fst ?res)"
    if f: "\<forall>k<6. failed net url options k"
  proof -
    have "failed net url options 0" "failed net url options (Suc 0)"
      "failed net url options (Suc (Suc 0))" "failed net url options (Suc (Suc (Suc 0)))"
      "failed net url options (Suc (Suc (Suc (Suc 0))))"
      "failed net url options (Suc (Suc (Suc (Suc (Suc 0)))))"
      using f by simp_all
    then show ?thesis
      by (simp add: fetchWithRetry_default_unfold fetchWithRetry_Suc_failed
          fetchWithRetry_0_failed sentinel_def)
  qed
  show ?thesis using a d s e by blast
qed

theorem fetchWithRetry_six_attempts_witness:
  "fst (fetchWithRetry_default up_at_fourth () ()) = \<lparr>ok = True, status = 200, payload = Some ()\<rparr> \<and>
   delays (snd (fetchWithRetry_default up_at_fourth () ())) = [1000, 2000, 4000] \<and>
   fst (fetchWithRetry_default always_500 () ()) = sentinel"
proof -
  have up: "failed up_at_fourth () () 0 \<and> failed up_at_fourth () () 1 \<and>
            failed up_at_fourth () () 2 \<and> \<not> failed up_at_fourth () () 3"
    by (simp add: failed_def up_at_fourth_def)
  have down: "\<forall>k<6. failed always_500 () () k"
    by (simp add: failed_def always_500_def)
  have "up_at_fourth () () 3 = Responded (fst (fetchWithRetry_default up_at_fourth () ()))"
    using fetchWithRetry_six_attempts [of up_at_fourth "()" "()"] up by blast
  then have "fst (fetchWithRetry_default up_at_fourth () ()) = \<lparr>ok = True, status = 200, payload = Some ()\<rparr>"
    by (simp add: up_at_fourth_def)
  moreover have "delays (snd (fetchWithRetry_default up_at_fourth () ())) = [1000, 2000, 4000]"
    using fetchWithRetry_six_attempts [of up_at_fourth "()" "()"] up by blast
  moreover have "fst (fetchWithRetry_default always_500 () ()) = sentinel"
    using fetchWithRetry_six_attempts [of always_500 "()" "()"] down by simp
  ultimately show ?thesis by simp
qed

text \<open>
  The claim as stated, "at most 5 attempts", fails on a network that is down: the sixth call
  of \<open>fetch\<close> is made after the fifth wait.
\<close>

theorem fetchWithRetry_five_attempts_counterexample:
  "attempts (snd (fetchWithRetry_default always_down () ())) = 6 \<and>
   \<not> attempts (snd (fetchWithRetry_default always_down () ())) \<le> 5"
  by (simp add: fetchWithRetry_default_unfold Let_def fetchWithRetry.simps always_down_def)

section \<open>Values of the remote API\<close>

text \<open>
  The script reads parsed JSON: \<open>window.ytInitialData\<close> and the bodies of the
  \<^verbatim>\<open>youtubei/v1/next\<close> responses. \<open>JUndef\<close> is what reading a missing property gives.
  An object is its list of properties, a property read finds the first binding of the name.
  Numbers are left out: no value that the harvest reads is a number.
\<close>

datatype json =
  JUndef | JNull | JBool bool | JStr string | JArr "json list" | JObj "(string \<times> json) list"

text \<open>JavaScript's truthiness, as \<open>if (x)\<close>, \<open>!x\<close>, \<open>x || y\<close> and \<open>x && y\<close> test it.\<close>

fun truthy :: "json \<Rightarrow> bool" where
  "truthy JUndef = False"
| "truthy JNull = False"
| "truthy (JBool b) = b"
| "truthy (JStr s) = (s \<noteq> [])"
| "truthy (JArr xs) = True"
| "truthy (JObj kvs) = True"

definition or_else :: "json \<Rightarrow> json \<Rightarrow> json" where
  "or_else a b = (if truthy a then a else b)"

text \<open>A property name that is an array index: decimal digits with no leading zero.\<close>

definition digit :: "char \<Rightarrow> nat option" where
  "digit c = map_of [(CHR ''0'', 0), (CHR ''1'', 1), (CHR ''2'', 2), (CHR ''3'', 3), (CHR ''4'', 4),
                     (CHR ''5'', 5), (CHR ''6'', 6), (CHR ''7'', 7), (CHR ''8'', 8), (CHR ''9'', 9)] c"

fun digits :: "string \<Rightarrow> nat \<Rightarrow> nat option" where
  "digits [] n = Some n"
| "digits (c # cs) n = (case digit c of None \<Rightarrow> None | Some d \<Rightarrow> digits cs (10 * n + d))"

definition index_of :: "string \<Rightarrow> nat option" where
  "index_of k = (if k = [] \<or> (hd k = CHR ''0'' \<and> tl k \<noteq> []) then None else digits k 0)"

text \<open>
  \<open>get k v\<close> is \<open>v?.[k]\<close>: the property \<open>k\<close> of an object, the element of an array or the
  character of a string at an index, and \<open>undefined\<close> on \<open>null\<close>, \<open>undefined\<close> and
  booleans. (\<open>length\<close> and the methods of the prototypes are not properties here; no path of
  the script names one.)
\<close>

fun get :: "string \<Rightarrow> json \<Rightarrow> json" where
  "get k (JObj kvs) = (case map_of kvs k of Some v \<Rightarrow> v | None \<Rightarrow> JUndef)"
| "get k (JArr xs) =
     (case index_of k of Some i \<Rightarrow> if i < length xs then xs ! i else JUndef | None \<Rightarrow> JUndef)"
| "get k (JStr s) =
     (case index_of k of Some i \<Rightarrow> if i < length s then JStr [s ! i] else JUndef | None \<Rightarrow> JUndef)"
| "get k v = JUndef"

text \<open>
  \<open>walk_path [a, b, c] v\<close> is the chain \<open>v?.a?.b?.c\<close>. The helper of \<open>resolveComment\<close>,
  \<^verbatim>\<open>const getVal = (path, obj) => {
      if (!obj) return undefined;
      return path.split('.').reduce((o, k) => (o || {})[k], obj);
  };\<close>
  walks the same way: \<open>(o || {})[k]\<close> is \<open>get k o\<close>, since \<open>get\<close> is \<open>undefined\<close> on
  every falsy value. Its path is given split at the dots.
\<close>

fun walk_path :: "string list \<Rightarrow> json \<Rightarrow> json" where
  "walk_path [] v = v"
| "walk_path (k # ks) v = walk_path ks (get k v)"

definition getVal :: "string list \<Rightarrow> json \<Rightarrow> json" where
  "getVal path obj = (if \<not> truthy obj then JUndef else walk_path path obj)"

text \<open>
  Failures. \<open>TypeError\<close> is JavaScript's: reading a property of \<open>null\<close> or \<open>undefined\<close>
  without \<open>?.\<close>, calling a method that the value does not have, iterating a value that
  is not iterable. \<open>SyntaxError\<close> is what \<open>response.json()\<close> rejects with when the body
  is not JSON. \<open>DataError\<close> is IndexedDB's, for a key that is not valid.
  \<open>OutOfFuel\<close> is not an exception of the script: the recursion that follows reply
  continuations is given a bound on its depth, and \<open>OutOfFuel\<close> says that the bound was
  reached, that is, that the script would still be fetching. No \<open>catch\<close> catches it.
\<close>

datatype error = TypeError | SyntaxError | DataError | OutOfFuel

definition bindE :: "error + 'a \<Rightarrow> ('a \<Rightarrow> error + 'b) \<Rightarrow> error + 'b" where
  "bindE m f = (case m of Inl e \<Rightarrow> Inl e | Inr v \<Rightarrow> f v)"

definition nullish :: "json \<Rightarrow> bool" where
  "nullish v \<longleftrightarrow> v = JUndef \<or> v = JNull"

text \<open>\<open>v.k\<close>, without \<open>?.\<close>.\<close>

definition read_prop :: "string \<Rightarrow> json \<Rightarrow> error + json" where
  "read_prop k v = (if nullish v then Inl TypeError else Inr (get k v))"

text \<open>
  What \<open>for (const x of v)\<close> and the spread \<open>...v\<close> run over: the elements of an array,
  the characters of a string; nothing else is iterable.
\<close>

fun iterate :: "json \<Rightarrow> error + json list" where
  "iterate (JArr xs) = Inr xs"
| "iterate (JStr s) = Inr (map (\<lambda>c. JStr [c]) s)"
| "iterate v = Inl TypeError"

fun is_array :: "json \<Rightarrow> bool" where
  "is_array (JArr xs) = True"
| "is_array v = False"

fun elems :: "json \<Rightarrow> json list" where
  "elems (JArr xs) = xs"
| "elems v = []"

text \<open>\<open>String(v)\<close>, and \<open>xs.join('')\<close>, which takes \<open>null\<close> and \<open>undefined\<close> as empty.\<close>

fun intersperse :: "string \<Rightarrow> string list \<Rightarrow> string" where
  "intersperse sep [] = []"
| "intersperse sep [s] = s"
| "intersperse sep (s # t # ss) = s @ sep @ intersperse sep (t # ss)"

fun js_string :: "json \<Rightarrow> string" where
  "js_string JUndef = ''undefined''"
| "js_string JNull = ''null''"
| "js_string (JBool b) = (if b then ''true'' else ''false'')"
| "js_string (JStr s) = s"
| "js_string (JArr xs) =
     intersperse '','' (map (\<lambda>x. if x = JUndef \<or> x = JNull then [] else js_string x) xs)"
| "js_string (JObj kvs) = ''[object Object]''"

definition js_join :: "json list \<Rightarrow> string" where
  "js_join xs = concat (map (\<lambda>x. if nullish x then [] else js_string x) xs)"

text \<open>\<open>s.startsWith(p)\<close> and \<open>s.includes(p)\<close> on strings.\<close>

definition startsWith :: "string \<Rightarrow> string \<Rightarrow> bool" where
  "startsWith p s = (take (length p) s = p)"

fun includes_str :: "string \<Rightarrow> string \<Rightarrow> bool" where
  "includes_str p [] = (p = [])"
| "includes_str p (c # cs) = (startsWith p (c # cs) \<or> includes_str p cs)"

text \<open>Running a function over a list, left to right, until one application throws.\<close>

fun mapE :: "('a \<Rightarrow> error + 'b) \<Rightarrow> 'a list \<Rightarrow> error + 'b list" where
  "mapE f [] = Inr []"
| "mapE f (x # xs) =
     (case f x of Inl e \<Rightarrow> Inl e
      | Inr y \<Rightarrow> (case mapE f xs of Inl e \<Rightarrow> Inl e | Inr ys \<Rightarrow> Inr (y # ys)))"

text \<open>A loop over a list that threads a state and stops at the first throw.\<close>

fun foldE :: "('a \<Rightarrow> 's \<Rightarrow> error + 's) \<Rightarrow> 'a list \<Rightarrow> 's \<Rightarrow> error + 's" where
  "foldE f [] s = Inr s"
| "foldE f (x # xs) s = (case f x s of Inl e \<Rightarrow> Inl e | Inr s' \<Rightarrow> foldE f xs s')"

section \<open>Entity store\<close>

text \<open>
  The entity store is a JavaScript \<open>Map\<close>: its entries in insertion order, one per key.
  \<open>Map.prototype.set\<close> replaces the value of a key that is present, in place, and appends
  a new key; this is \<open>AList.update\<close>. \<open>Map.prototype.get\<close> gives \<open>undefined\<close> for a
  key that is absent. Keys are compared as values, which is what \<open>Map\<close> does on the strings
  that the API sends as \<open>entityKey\<close> and \<open>commentKey\<close>.
\<close>

type_synonym entity_store = "(json \<times> json) list"

definition Map_set :: "json \<Rightarrow> json \<Rightarrow> entity_store \<Rightarrow> entity_store" where
  "Map_set k v store = AList.update k v store"

definition Map_get :: "entity_store \<Rightarrow> json \<Rightarrow> json" where
  "Map_get store k = (case map_of store k of Some v \<Rightarrow> v | None \<Rightarrow> JUndef)"

definition Map_has :: "entity_store \<Rightarrow> json \<Rightarrow> bool" where
  "Map_has store k = (k \<in> fst ` set store)"

text \<open>
  \<^verbatim>\<open>function parseEntityStore(frameworkUpdates)\<close>: a new \<open>Map\<close> holding, for every mutation
  with a truthy payload, the payload (unwrapped from \<open>commentEntityPayload\<close> when it has
  one) under the mutation's \<open>entityKey\<close>.
\<close>

definition store_mutation :: "json \<Rightarrow> entity_store \<Rightarrow> error + entity_store" where
  "store_mutation mutation store =
     bindE (read_prop ''payload'' mutation) (\<lambda>payload.
       if truthy payload then
         if truthy (get ''commentEntityPayload'' payload)
         then Inr (Map_set (get ''entityKey'' mutation) (get ''commentEntityPayload'' payload) store)
         else Inr (Map_set (get ''entityKey'' mutation) payload store)
       else Inr store)"

definition parseEntityStore :: "json \<Rightarrow> error + entity_store" where
  "parseEntityStore frameworkUpdates =
     (let mutations = walk_path [''entityBatchUpdate'', ''mutations''] frameworkUpdates in
      if truthy mutations
      then bindE (iterate mutations) (\<lambda>ms. foldE store_mutation ms [])
      else Inr [])"

text \<open>
  The merge that follows every parsed response, in \<open>fetchCommentsViaContinuation\<close> and in
  \<open>fetchReplies\<close>:
  \<^verbatim>\<open>newStore.forEach((v, k) => entityStore.set(k, v));\<close>
\<close>

definition mergeEntities :: "entity_store \<Rightarrow> entity_store \<Rightarrow> entity_store" where
  "mergeEntities newStore entityStore = fold (\<lambda>(k, v) store. Map_set k v store) newStore entityStore"

text \<open>
  \<^verbatim>\<open>if (data.frameworkUpdates) {
      const newStore = parseEntityStore(data.frameworkUpdates);
      newStore.forEach((v, k) => entityStore.set(k, v));
  }\<close>
\<close>

definition mergeFrameworkUpdates :: "json \<Rightarrow> entity_store \<Rightarrow> error + entity_store" where
  "mergeFrameworkUpdates data entityStore =
     bindE (read_prop ''frameworkUpdates'' data) (\<lambda>frameworkUpdates.
       if truthy frameworkUpdates
       then bindE (parseEntityStore frameworkUpdates) (\<lambda>newStore. Inr (mergeEntities newStore entityStore))
       else Inr entityStore)"

text \<open>Two batch updates to run the merge on; both write the key \<open>k1\<close>.\<close>

definition update_A :: json where
  "update_A = JObj [(''entityBatchUpdate'', JObj [(''mutations'', JArr [
      JObj [(''entityKey'', JStr ''k1''), (''payload'', JObj [(''commentEntityPayload'', JStr ''a1'')])],
      JObj [(''entityKey'', JStr ''k2''), (''payload'', JStr ''a2'')]])])]"

definition update_B :: json where
  "update_B = JObj [(''entityBatchUpdate'', JObj [(''mutations'', JArr [
      JObj [(''entityKey'', JStr ''k1''), (''payload'', JStr ''b1'')],
      JObj [(''entityKey'', JStr ''k3''), (''payload'', JStr ''b3'')]])])]"

subsection \<open>Properties of the entity store\<close>

lemma bindE_simps [simp]:
  "bindE (Inl e) f = Inl e" "bindE (Inr v) f = f v"
  by (simp_all add: bindE_def)

lemma bindE_eq_Inr: "bindE m f = Inr y \<longleftrightarrow> (\<exists>v. m = Inr v \<and> f v = Inr y)"
  by (cases m) auto

lemma distinct_Map_set: "distinct (map fst store) \<Longrightarrow> distinct (map fst (Map_set k v store))"
  by (simp add: Map_set_def distinct_update)

lemma map_of_Map_set: "map_of (Map_set k v store) = (map_of store)(k \<mapsto> v)"
  by (simp add: Map_set_def update_conv')

lemma distinct_store_mutation:
  "distinct (map fst store) \<Longrightarrow> store_mutation m store = Inr store' \<Longrightarrow> distinct (map fst store')"
  by (auto simp: store_mutation_def bindE_eq_Inr distinct_Map_set split: if_splits)

lemma distinct_foldE_store_mutation:
  "distinct (map fst store) \<Longrightarrow> foldE store_mutation ms store = Inr store' \<Longrightarrow>
   distinct (map fst store')"
proof (induction ms arbitrary: store)
  case Nil
  then show ?case by simp
next
  case (Cons m ms)
  then show ?case
    by (cases "store_mutation m store") (auto dest: distinct_store_mutation)
qed

lemma distinct_parseEntityStore: "parseEntityStore fu = Inr a \<Longrightarrow> distinct (map fst a)"
  using distinct_foldE_store_mutation [of "[]"]
  by (auto simp: parseEntityStore_def Let_def bindE_eq_Inr split: if_splits)

lemma map_of_mergeEntities:
  "distinct (map fst newStore) \<Longrightarrow>
   map_of (mergeEntities newStore store) = map_of store ++ map_of newStore"
  unfolding mergeEntities_def
proof (induction newStore arbitrary: store)
  case Nil
  show ?case by simp
next
  case (Cons e newStore)
  obtain k v where e: "e = (k, v)" by (cases e)
  have k: "map_of newStore k = None"
    using Cons.prems e by (simp add: map_of_eq_None_iff)
  have "map_of (fold (\<lambda>(k, v) store. Map_set k v store) newStore (Map_set k v store))
          = map_of (Map_set k v store) ++ map_of newStore"
    using Cons.prems by (intro Cons.IH) simp
  moreover have "map_of (Map_set k v store) ++ map_of newStore = map_of store ++ map_of ((k, v) # newStore)"
    using k by (auto simp: map_of_Map_set map_add_def fun_eq_iff split: option.splits)
  ultimately have "map_of (fold (\<lambda>(k, v) store. Map_set k v store) newStore (Map_set k v store))
          = map_of store ++ map_of ((k, v) # newStore)"
    by (rule trans)
  then show ?case by (simp only: e fold_Cons o_apply prod.case)
qed

lemma Map_has_iff: "Map_has store k \<longleftrightarrow> map_of store k \<noteq> None"
  by (simp add: Map_has_def map_of_eq_None_iff)

lemma distinct_mergeEntities:
  "distinct (map fst store) \<Longrightarrow> distinct (map fst (mergeEntities newStore store))"
  unfolding mergeEntities_def
  by (induction newStore arbitrary: store) (auto simp: distinct_Map_set)

text \<open>
  Claim C4. Let \<open>a\<close> and \<open>b\<close> be the updates that \<open>parseEntityStore\<close> builds from the
  \<open>frameworkUpdates\<close> \<open>A\<close> and \<open>B\<close> of two responses.
  After merging \<open>a\<close> and then \<open>b\<close> into a store: a key of \<open>b\<close> (so every key of both)
  has the value from \<open>b\<close>; a key of \<open>a\<close> alone has the value from \<open>a\<close>, and a key of
  one update alone has that update's value in whichever order the two are merged; a key
  of neither has what the store had; and every key of the store is still a key.
\<close>

theorem mergeEntities_last_applied_wins:
  assumes "parseEntityStore A = Inr a" and "parseEntityStore B = Inr b"
  shows "(Map_has a k \<and> Map_has b k \<longrightarrow>
            Map_get (mergeEntities b (mergeEntities a store)) k = Map_get b k) \<and>
         (Map_has a k \<and> \<not> Map_has b k \<longrightarrow>
            Map_get (mergeEntities b (mergeEntities a store)) k = Map_get a k \<and>
            Map_get (mergeEntities a (mergeEntities b store)) k = Map_get a k) \<and>
         (\<not> Map_has a k \<and> Map_has b k \<longrightarrow>
            Map_get (mergeEntities b (mergeEntities a store)) k = Map_get b k \<and>
            Map_get (mergeEntities a (mergeEntities b store)) k = Map_get b k) \<and>
         (\<not> Map_has a k \<and> \<not> Map_has b k \<longrightarrow>
            Map_get (mergeEntities b (mergeEntities a store)) k = Map_get store k) \<and>
         (Map_has store k \<longrightarrow> Map_has (mergeEntities b (mergeEntities a store)) k)"
proof -
  have ab: "map_of (mergeEntities b (mergeEntities a store)) = map_of store ++ map_of a ++ map_of b"
    using assms by (simp add: map_of_mergeEntities distinct_parseEntityStore)
  have ba: "map_of (mergeEntities a (mergeEntities b store)) = map_of store ++ map_of b ++ map_of a"
    using assms by (simp add: map_of_mergeEntities distinct_parseEntityStore)
  show ?thesis
    by (auto simp: Map_get_def Map_has_iff ab ba map_add_def split: option.splits)
qed

theorem mergeEntities_last_applied_wins_witness:
  "parseEntityStore update_A = Inr [(JStr ''k1'', JStr ''a1''), (JStr ''k2'', JStr ''a2'')] \<and>
   parseEntityStore update_B = Inr [(JStr ''k1'', JStr ''b1''), (JStr ''k3'', JStr ''b3'')] \<and>
   Map_get (mergeEntities [(JStr ''k1'', JStr ''b1''), (JStr ''k3'', JStr ''b3'')]
     (mergeEntities [(JStr ''k1'', JStr ''a1''), (JStr ''k2'', JStr ''a2'')]
       [(JStr ''k0'', JStr ''old'')])) (JStr ''k1'') = JStr ''b1'' \<and>
   Map_get (mergeEntities [(JStr ''k1'', JStr ''a1''), (JStr ''k2'', JStr ''a2'')]
     (mergeEntities [(JStr ''k1'', JStr ''b1''), (JStr ''k3'', JStr ''b3'')]
       [(JStr ''k0'', JStr ''old'')])) (JStr ''k2'') = JStr ''a2'' \<and>
   Map_get (mergeEntities [(JStr ''k1'', JStr ''a1''), (JStr ''k2'', JStr ''a2'')]
     (mergeEntities [(JStr ''k1'', JStr ''b1''), (JStr ''k3'', JStr ''b3'')]
       [(JStr ''k0'', JStr ''old'')])) (JStr ''k3'') = JStr ''b3'' \<and>
   Map_get (mergeEntities [(JStr ''k1'', JStr ''b1''), (JStr ''k3'', JStr ''b3'')]
     (mergeEntities [(JStr ''k1'', JStr ''a1''), (JStr ''k2'', JStr ''a2'')]
       [(JStr ''k0'', JStr ''old'')])) (JStr ''k0'') = JStr ''old''"
proof -
  have a: "parseEntityStore update_A = Inr [(JStr ''k1'', JStr ''a1''), (JStr ''k2'', JStr ''a2'')]"
    by code_simp
  have b: "parseEntityStore update_B = Inr [(JStr ''k1'', JStr ''b1''), (JStr ''k3'', JStr ''b3'')]"
    by code_simp
  note t = mergeEntities_last_applied_wins [OF a b, of _ "[(JStr ''k0'', JStr ''old'')]"]
  show ?thesis
    using a b t [of "JStr ''k0''"] t [of "JStr ''k1''"] t [of "JStr ''k2''"] t [of "JStr ''k3''"]
    by (simp add: Map_has_def Map_get_def)
qed

section \<open>Records\<close>

text \<open>
  A harvested comment is a plain JavaScript object. Its properties are the fields of the
  record (prefixed with \<open>c_\<close>); a property that the object does not have is \<open>JUndef\<close>.
\<close>

record comment =
  c_id :: json
  c_author :: json
  c_text :: json
  c_time :: json
  c_likes :: json
  c_authorUrl :: json
  c_isChannelOwner :: json
  c_isMember :: json
  c_member :: json
  c_authorImg :: json
  c_isReply :: json
  c_parentId :: json
  c_replies :: json

section \<open>Durable sink: the IndexedDB object store\<close>

text \<open>
  \<open>initDB\<close> creates the object store \<open>comments\<close> with \<^verbatim>\<open>{ keyPath: 'id' }\<close>: a record is
  stored under the value of its \<open>id\<close>, and \<open>put\<close> replaces the record stored under the
  same key. The store is the list of its records with their keys, one per key.
  IndexedDB returns records in the order of their keys; the model keeps the order in which
  the keys were first written, and nothing below depends on the order.

  A key must be valid: of the values of \<open>json\<close>, strings and arrays of valid keys are.
  \<open>put\<close> throws a \<open>DataError\<close> on any other.
\<close>

type_synonym db = "(json \<times> comment) list"

fun valid_key :: "json \<Rightarrow> bool" where
  "valid_key (JStr s) = True"
| "valid_key (JArr xs) = (\<forall>x \<in> set xs. valid_key x)"
| "valid_key v = False"

definition put :: "comment \<Rightarrow> db \<Rightarrow> error + db" where
  "put c store = (if valid_key (c_id c) then Inr (AList.update (c_id c) c store) else Inl DataError)"

text \<open>\<open>clearCommentStore\<close>: \<open>store.clear()\<close>. \<open>getAllComments\<close>: \<open>store.getAll()\<close>.\<close>

definition clearCommentStore :: "db \<Rightarrow> db" where
  "clearCommentStore store = []"

definition getAllComments :: "db \<Rightarrow> comment list" where
  "getAllComments store = map snd store"

text \<open>
  \<^verbatim>\<open>comments.forEach(c => {
      if (!c.id) c.id = Math.random().toString(36).substr(2, 9);
      store.put(c);
  });\<close>
  The random strings are a parameter: \<open>rnd n\<close> is the \<open>n\<close>-th one drawn in the session.
  The loop runs inside the executor of the promise; when \<open>put\<close> throws, the loop stops
  there, with the earlier requests of the transaction still in place.
\<close>

definition ensure_id :: "(nat \<Rightarrow> string) \<Rightarrow> comment \<Rightarrow> nat \<Rightarrow> comment \<times> nat" where
  "ensure_id rnd c n = (if \<not> truthy (c_id c) then (c\<lparr>c_id := JStr (rnd n)\<rparr>, Suc n) else (c, n))"

fun put_each :: "(nat \<Rightarrow> string) \<Rightarrow> comment list \<Rightarrow> db \<Rightarrow> nat \<Rightarrow> error option \<times> db \<times> nat" where
  "put_each rnd [] store n = (None, store, n)"
| "put_each rnd (c # cs) store n =
     (case ensure_id rnd c n of (c', n') \<Rightarrow>
        (case put c' store of
           Inl e \<Rightarrow> (Some e, store, n')
         | Inr store' \<Rightarrow> put_each rnd cs store' n'))"

text \<open>
  \<^verbatim>\<open>async function saveCommentBatch(db, comments)\<close>. The promise it returns is the write
  handle. The transaction ends in one of two ways, which the environment chooses: it
  completes, and \<open>tx.oncomplete\<close> resolves the handle; or a request fails, the \<open>error\<close>
  event reaches \<open>tx.onerror\<close>, which logs and resolves the handle, and the transaction is
  rolled back. A handle that the executor has rejected (a throw of \<open>put\<close>) stays rejected.
\<close>

datatype promise = Pending | Fulfilled | Rejected

datatype tx_event = Complete | Error

record save_result =
  sr_store :: db
  sr_handle :: promise
  sr_logged :: bool
  sr_drawn :: nat

definition saveCommentBatch ::
  "(nat \<Rightarrow> string) \<Rightarrow> tx_event \<Rightarrow> db \<Rightarrow> comment list \<Rightarrow> nat \<Rightarrow> save_result" where
  "saveCommentBatch rnd ev store comments n =
     (case put_each rnd comments store n of (thrown, staged, n') \<Rightarrow>
        \<lparr>sr_store = (if ev = Complete then staged else store),
         sr_handle = (if thrown = None then Fulfilled else Rejected),
         sr_logged = (ev = Error),
         sr_drawn = n'\<rparr>)"

text \<open>
  The writes of one session, in the order in which their transactions were created (the
  order in which IndexedDB runs read-write transactions on one store), on the store that
  \<open>clearCommentStore\<close> has emptied.
\<close>

fun run_writes :: "(nat \<Rightarrow> string) \<Rightarrow> (tx_event \<times> comment list) list \<Rightarrow> db \<Rightarrow> nat \<Rightarrow> db" where
  "run_writes rnd [] store n = store"
| "run_writes rnd ((ev, comments) # ws) store n =
     (let r = saveCommentBatch rnd ev store comments n
      in run_writes rnd ws (sr_store r) (sr_drawn r))"

definition final_snapshot :: "(nat \<Rightarrow> string) \<Rightarrow> (tx_event \<times> comment list) list \<Rightarrow> db \<Rightarrow> comment list" where
  "final_snapshot rnd ws store = getAllComments (run_writes rnd ws (clearCommentStore store) 0)"

text \<open>
  What the loop of one batch write does, read off without the store: the records for which
  \<open>put\<close> was requested, each with its identifier in place (all of the batch, unless
  \<open>put\<close> threw), and the number of random strings drawn so far. \<open>session_written\<close> lists
  the records put by the transactions of a session that completed, in the order of the
  requests.
\<close>

fun written :: "(nat \<Rightarrow> string) \<Rightarrow> comment list \<Rightarrow> nat \<Rightarrow> comment list" where
  "written rnd [] n = []"
| "written rnd (c # cs) n =
     (case ensure_id rnd c n of (c', n') \<Rightarrow>
        if valid_key (c_id c') then c' # written rnd cs n' else [])"

fun drawn :: "(nat \<Rightarrow> string) \<Rightarrow> comment list \<Rightarrow> nat \<Rightarrow> nat" where
  "drawn rnd [] n = n"
| "drawn rnd (c # cs) n =
     (case ensure_id rnd c n of (c', n') \<Rightarrow>
        if valid_key (c_id c') then drawn rnd cs n' else n')"

fun session_written :: "(nat \<Rightarrow> string) \<Rightarrow> (tx_event \<times> comment list) list \<Rightarrow> nat \<Rightarrow> comment list" where
  "session_written rnd [] n = []"
| "session_written rnd ((ev, comments) # ws) n =
     (if ev = Complete then written rnd comments n else []) @
     session_written rnd ws (drawn rnd comments n)"

text \<open>The last record of a list that has the identifier \<open>k\<close>.\<close>

definition last_with_id :: "json \<Rightarrow> comment list \<Rightarrow> comment option" where
  "last_with_id k cs = (case filter (\<lambda>c. c_id c = k) cs of [] \<Rightarrow> None | c # cs' \<Rightarrow> Some (last (c # cs')))"

text \<open>A comment with nothing set, and a random source, to run the sink on.\<close>

definition blank :: comment where
  "blank = \<lparr>c_id = JUndef, c_author = JUndef, c_text = JUndef, c_time = JUndef, c_likes = JUndef,
            c_authorUrl = JUndef, c_isChannelOwner = JUndef, c_isMember = JUndef, c_member = JUndef,
            c_authorImg = JUndef, c_isReply = JUndef, c_parentId = JUndef, c_replies = JUndef\<rparr>"

definition rnd_demo :: "nat \<Rightarrow> string" where
  "rnd_demo n = replicate (Suc n) CHR ''z''"

text \<open>
  A session of three batch writes: the first completes, with a record that has no \<open>id\<close>;
  the second fails; the third completes and writes the \<open>id\<close> \<open>a\<close> again.
\<close>

definition demo_writes :: "(tx_event \<times> comment list) list" where
  "demo_writes =
     [(Complete, [blank\<lparr>c_id := JStr ''a'', c_text := JStr ''first''\<rparr>, blank\<lparr>c_text := JStr ''anonymous''\<rparr>]),
      (Error, [blank\<lparr>c_id := JStr ''b'', c_text := JStr ''lost''\<rparr>]),
      (Complete, [blank\<lparr>c_id := JStr ''a'', c_text := JStr ''second''\<rparr>])]"

subsection \<open>Properties of the sink\<close>

definition store_inv :: "db \<Rightarrow> bool" where
  "store_inv store \<longleftrightarrow>
     distinct (map fst store) \<and> (\<forall>(k, c) \<in> set store. c_id c = k \<and> truthy k)"

lemma store_inv_empty: "store_inv []"
  by (simp add: store_inv_def)

lemma set_update_subset: "set (AList.update k v al) \<subseteq> insert (k, v) (set al)"
  by (induction al) auto

lemma store_inv_put:
  assumes "store_inv store" "put c store = Inr store'" "truthy (c_id c)"
  shows "store_inv store'"
proof -
  have s: "store' = AList.update (c_id c) c store"
    using assms(2) by (auto simp: put_def split: if_splits)
  have "distinct (map fst store')" using assms(1) by (simp add: s store_inv_def distinct_update)
  moreover have "\<forall>(k, c') \<in> set store'. c_id c' = k \<and> truthy k"
    using assms(1,3) set_update_subset [of "c_id c" c store] by (auto simp: s store_inv_def)
  ultimately show ?thesis by (simp add: store_inv_def)
qed

lemma truthy_ensure_id:
  "\<forall>n. rnd n \<noteq> [] \<Longrightarrow> ensure_id rnd c n = (c', n') \<Longrightarrow> truthy (c_id c')"
  by (auto simp: ensure_id_def split: if_splits)

lemma store_inv_put_each:
  "\<forall>n. rnd n \<noteq> [] \<Longrightarrow> store_inv store \<Longrightarrow> put_each rnd cs store n = (e, store', n') \<Longrightarrow>
   store_inv store'"
proof (induction cs arbitrary: store n)
  case Nil
  then show ?case by simp
next
  case (Cons c cs)
  obtain c1 n1 where c1: "ensure_id rnd c n = (c1, n1)" by (cases "ensure_id rnd c n")
  show ?case
  proof (cases "put c1 store")
    case (Inl err)
    then show ?thesis using Cons.prems c1 by simp
  next
    case (Inr store1)
    have "store_inv store1"
      using Cons.prems(1,2) c1 Inr by (blast intro: store_inv_put truthy_ensure_id)
    then show ?thesis using Cons.IH [of store1 n1] Cons.prems c1 Inr by simp
  qed
qed

lemma store_inv_saveCommentBatch:
  "\<forall>n. rnd n \<noteq> [] \<Longrightarrow> store_inv store \<Longrightarrow>
   store_inv (sr_store (saveCommentBatch rnd ev store cs n))"
  by (cases "put_each rnd cs store n")
     (auto simp: saveCommentBatch_def dest: store_inv_put_each)

lemma store_inv_run_writes:
  "\<forall>n. rnd n \<noteq> [] \<Longrightarrow> store_inv store \<Longrightarrow> store_inv (run_writes rnd ws store n)"
  by (induction ws arbitrary: store n) (auto simp: Let_def store_inv_saveCommentBatch)

lemma put_each_written:
  "\<exists>e. put_each rnd cs store n =
     (e, fold (\<lambda>c. AList.update (c_id c) c) (written rnd cs n) store, drawn rnd cs n)"
proof (induction cs arbitrary: store n)
  case Nil
  show ?case by simp
next
  case (Cons c cs)
  obtain c1 n1 where c1: "ensure_id rnd c n = (c1, n1)" by (cases "ensure_id rnd c n")
  then show ?case using Cons.IH [of "AList.update (c_id c1) c1 store" n1]
    by (auto simp: put_def)
qed

lemma map_of_fold_update:
  "map_of (fold (\<lambda>c. AList.update (c_id c) c) cs store) k =
     (case last_with_id k cs of Some c \<Rightarrow> Some c | None \<Rightarrow> map_of store k)"
proof (induction cs arbitrary: store)
  case Nil
  show ?case by (simp add: last_with_id_def)
next
  case (Cons c cs)
  show ?case
    by (simp add: Cons.IH update_conv' last_with_id_def split: list.splits)
qed

lemma snapshot_of_store_inv:
  assumes "store_inv store"
  shows "distinct (map c_id (getAllComments store))"
    and "\<forall>c \<in> set (getAllComments store). truthy (c_id c)"
    and "map_of store k = Some c \<Longrightarrow> c \<in> set (getAllComments store)"
    and "c \<in> set (getAllComments store) \<Longrightarrow> map_of store (c_id c) = Some c"
proof -
  have ids: "map c_id (getAllComments store) = map fst store"
    using assms by (auto simp: store_inv_def getAllComments_def)
  show "distinct (map c_id (getAllComments store))" using assms by (simp add: ids store_inv_def)
  show "\<forall>c \<in> set (getAllComments store). truthy (c_id c)"
    using assms by (auto simp: store_inv_def getAllComments_def)
  show "map_of store k = Some c \<Longrightarrow> c \<in> set (getAllComments store)"
    by (force simp: getAllComments_def dest: map_of_SomeD)
  show "c \<in> set (getAllComments store) \<Longrightarrow> map_of store (c_id c) = Some c"
    using assms by (auto simp: store_inv_def getAllComments_def)
qed

lemma saveCommentBatch_written:
  "sr_store (saveCommentBatch rnd ev store cs n) =
     fold (\<lambda>c. AList.update (c_id c) c) (if ev = Complete then written rnd cs n else []) store"
  "sr_drawn (saveCommentBatch rnd ev store cs n) = drawn rnd cs n"
  using put_each_written [of rnd cs store n] by (auto simp: saveCommentBatch_def)

lemma run_writes_written:
  "run_writes rnd ws store n = fold (\<lambda>c. AList.update (c_id c) c) (session_written rnd ws n) store"
  by (induction ws arbitrary: store n) (auto simp: Let_def saveCommentBatch_written)

lemma last_with_id_mem:
  "last_with_id k cs = Some c \<Longrightarrow> c \<in> set cs \<and> c_id c = k"
proof -
  assume a: "last_with_id k cs = Some c"
  then have ne: "filter (\<lambda>c. c_id c = k) cs \<noteq> []" and c: "c = last (filter (\<lambda>c. c_id c = k) cs)"
    by (auto simp: last_with_id_def split: list.splits)
  from ne have "last (filter (\<lambda>c. c_id c = k) cs) \<in> set (filter (\<lambda>c. c_id c = k) cs)"
    by (rule last_in_set)
  then show ?thesis using c by simp
qed

lemma last_with_id_exists:
  "c \<in> set cs \<Longrightarrow> \<exists>c'. last_with_id (c_id c) cs = Some c'"
  by (auto simp: last_with_id_def filter_empty_conv split: list.splits)

text \<open>
  Claim C10. The random strings are a parameter of the model; the claim is proved for a
  source of non-empty strings. Then, in the snapshot read at the end of a session (any
  batch writes, completed or failed, on the store emptied at the start): every record has
  a non-empty \<open>id\<close>; no two records have the same \<open>id\<close>; the record read back under an
  \<open>id\<close> is the last one written with that \<open>id\<close> by a completed transaction, and every
  \<open>id\<close> written by one is read back; and a record handed to a batch write without an
  \<open>id\<close> is written with the next random string as its \<open>id\<close>, any other as it is.
\<close>

theorem sink_upsert_by_id:
  assumes "\<forall>n. rnd n \<noteq> []"
  shows "(\<forall>c \<in> set (final_snapshot rnd ws store). truthy (c_id c)) \<and>
         distinct (map c_id (final_snapshot rnd ws store)) \<and>
         (\<forall>c \<in> set (final_snapshot rnd ws store).
            last_with_id (c_id c) (session_written rnd ws 0) = Some c) \<and>
         (\<forall>c \<in> set (session_written rnd ws 0).
            \<exists>c' \<in> set (final_snapshot rnd ws store). c_id c' = c_id c) \<and>
         (\<forall>c n. ensure_id rnd c n =
            (if truthy (c_id c) then (c, n) else (c\<lparr>c_id := JStr (rnd n)\<rparr>, Suc n)))"
proof -
  let ?final = "run_writes rnd ws (clearCommentStore store) 0"
  have inv: "store_inv ?final"
    using assms by (simp add: store_inv_run_writes store_inv_empty clearCommentStore_def)
  have look: "map_of ?final k = last_with_id k (session_written rnd ws 0)" for k
    by (simp add: run_writes_written map_of_fold_update clearCommentStore_def split: option.splits)
  have 1: "\<forall>c \<in> set (final_snapshot rnd ws store). truthy (c_id c)"
    unfolding final_snapshot_def using inv by (rule snapshot_of_store_inv(2))
  have 2: "distinct (map c_id (final_snapshot rnd ws store))"
    unfolding final_snapshot_def using inv by (rule snapshot_of_store_inv(1))
  have 3: "\<forall>c \<in> set (final_snapshot rnd ws store).
            last_with_id (c_id c) (session_written rnd ws 0) = Some c"
    unfolding final_snapshot_def using snapshot_of_store_inv(4) [OF inv] look by simp
  have 4: "\<forall>c \<in> set (session_written rnd ws 0).
            \<exists>c' \<in> set (final_snapshot rnd ws store). c_id c' = c_id c"
  proof
    fix c assume "c \<in> set (session_written rnd ws 0)"
    then obtain c' where c': "last_with_id (c_id c) (session_written rnd ws 0) = Some c'"
      using last_with_id_exists by blast
    then have "map_of ?final (c_id c) = Some c'" using look by simp
    then have "c' \<in> set (final_snapshot rnd ws store)"
      unfolding final_snapshot_def using inv by (rule snapshot_of_store_inv(3) [rotated])
    moreover have "c_id c' = c_id c" using c' last_with_id_mem by blast
    ultimately show "\<exists>c' \<in> set (final_snapshot rnd ws store). c_id c' = c_id c" by blast
  qed
  have 5: "\<forall>c n. ensure_id rnd c n =
            (if truthy (c_id c) then (c, n) else (c\<lparr>c_id := JStr (rnd n)\<rparr>, Suc n))"
    by (simp add: ensure_id_def)
  show ?thesis using 1 2 3 4 5 by blast
qed

theorem sink_upsert_by_id_witness:
  "(\<forall>n. rnd_demo n \<noteq> []) \<and>
   distinct (map c_id (final_snapshot rnd_demo demo_writes [])) \<and>
   final_snapshot rnd_demo demo_writes [] =
     [blank\<lparr>c_id := JStr ''a'', c_text := JStr ''second''\<rparr>,
      blank\<lparr>c_id := JStr ''z'', c_text := JStr ''anonymous''\<rparr>]"
proof -
  have h: "\<forall>n. rnd_demo n \<noteq> []" by (simp add: rnd_demo_def)
  have "distinct (map c_id (final_snapshot rnd_demo demo_writes []))"
    using sink_upsert_by_id [OF h, of demo_writes "[]"] by blast
  moreover have "final_snapshot rnd_demo demo_writes [] =
     [blank\<lparr>c_id := JStr ''a'', c_text := JStr ''second''\<rparr>,
      blank\<lparr>c_id := JStr ''z'', c_text := JStr ''anonymous''\<rparr>]"
    by (simp add: final_snapshot_def demo_writes_def getAllComments_def clearCommentStore_def
        saveCommentBatch_def ensure_id_def put_def blank_def rnd_demo_def)
  ultimately show ?thesis using h by blast
qed

section \<open>Entity resolver: \<open>resolveComment\<close>\<close>

text \<open>
  \<^verbatim>\<open>function resolveComment(viewModel, entityStore)\<close>. The node is looked up in the entity
  store under \<open>commentKey\<close> (or \<open>commentId\<close>); the payload found there, or else the node
  itself, is the source of every field.
\<close>

definition resolve_source :: "json \<Rightarrow> entity_store \<Rightarrow> json" where
  "resolve_source viewModel entityStore =
     (let id0 = or_else (get ''commentKey'' viewModel) (or_else (get ''commentId'' viewModel) (JStr ''''));
          payload = (if truthy id0 then Map_get entityStore id0 else JNull)
      in or_else payload viewModel)"

text \<open>
  \<^verbatim>\<open>const extractText = (obj) => {
      if (!obj) return '';
      if (obj.simpleText) return obj.simpleText;
      if (obj.runs && Array.isArray(obj.runs)) {
          return obj.runs.map(r => r.text || r.emoji?.image?.accessibility?.accessibilityData?.label || '').join('');
      }
      const nestedContent = getVal('properties.content.content', obj) ||
                            getVal('commentEntityPayload.properties.content.content', obj);
      if (nestedContent) return nestedContent;
      return '';
  };\<close>
\<close>

definition run_text :: "json \<Rightarrow> error + json" where
  "run_text r =
     bindE (read_prop ''text'' r) (\<lambda>t.
       Inr (or_else t
             (or_else (walk_path [''emoji'', ''image'', ''accessibility'', ''accessibilityData'', ''label''] r)
                      (JStr ''''))))"

definition extractText :: "json \<Rightarrow> error + json" where
  "extractText obj =
     (if \<not> truthy obj then Inr (JStr '''')
      else if truthy (get ''simpleText'' obj) then Inr (get ''simpleText'' obj)
      else if truthy (get ''runs'' obj) \<and> is_array (get ''runs'' obj)
        then bindE (mapE run_text (elems (get ''runs'' obj))) (\<lambda>ts. Inr (JStr (js_join ts)))
      else let nestedContent =
                 or_else (getVal [''properties'', ''content'', ''content''] obj)
                         (getVal [''commentEntityPayload'', ''properties'', ''content'', ''content''] obj)
           in if truthy nestedContent then Inr nestedContent else Inr (JStr ''''))"

text \<open>\<open>a || b\<close> where evaluating \<open>a\<close> or \<open>b\<close> may throw; \<open>b\<close> is evaluated only if \<open>a\<close> is falsy.\<close>

definition orE :: "error + json \<Rightarrow> error + json \<Rightarrow> error + json" where
  "orE a b = bindE a (\<lambda>v. if truthy v then Inr v else b)"

text \<open>
  The three fields that decide whether there is a record, before any default is put in:
  the text, the author, the identity.
\<close>

definition text_of :: "json \<Rightarrow> error + json" where
  "text_of source =
     orE (extractText (getVal [''contentText''] source))
    (orE (extractText (getVal [''properties'', ''content''] source))
    (orE (extractText (getVal [''commentEntityPayload'', ''properties'', ''content''] source))
         (extractText source)))"

definition author_of :: "json \<Rightarrow> json" where
  "author_of source =
     or_else (getVal [''authorText'', ''simpleText''] source)
    (or_else (getVal [''author'', ''displayName''] source)
             (getVal [''commentEntityPayload'', ''author'', ''displayName''] source))"

definition identity_of :: "json \<Rightarrow> entity_store \<Rightarrow> json" where
  "identity_of viewModel entityStore =
     (let id0 = or_else (get ''commentKey'' viewModel) (or_else (get ''commentId'' viewModel) (JStr ''''))
      in if \<not> truthy id0 then getVal [''commentId''] (resolve_source viewModel entityStore) else id0)"

text \<open>
  \<^verbatim>\<open>if (authorUrl && !authorUrl.startsWith('http')) {
      authorUrl = 'https://www.youtube.com' + authorUrl;
  }\<close>
  Only a string has \<open>startsWith\<close>.
\<close>

definition absolute_url :: "json \<Rightarrow> error + json" where
  "absolute_url authorUrl =
     (if truthy authorUrl then
        (case authorUrl of
           JStr s \<Rightarrow> Inr (if startsWith ''http'' s then authorUrl
                          else JStr (''https://www.youtube.com'' @ s))
         | _ \<Rightarrow> Inl TypeError)
      else Inr authorUrl)"

text \<open>
  \<^verbatim>\<open>b => b.liveChatAuthorBadgeRenderer?.tooltip?.includes('Member')\<close>: strings and arrays
  have \<open>includes\<close>.
\<close>

definition is_member_badge :: "json \<Rightarrow> error + bool" where
  "is_member_badge b =
     bindE (read_prop ''liveChatAuthorBadgeRenderer'' b) (\<lambda>renderer.
       case get ''tooltip'' renderer of
         JUndef \<Rightarrow> Inr False
       | JNull \<Rightarrow> Inr False
       | JStr s \<Rightarrow> Inr (includes_str ''Member'' s)
       | JArr xs \<Rightarrow> Inr (JStr ''Member'' \<in> set xs)
       | _ \<Rightarrow> Inl TypeError)"

text \<open>\<open>xs.find(p)\<close> and \<open>xs.some(p)\<close>, which only arrays have.\<close>

fun findE :: "('a \<Rightarrow> error + bool) \<Rightarrow> 'a list \<Rightarrow> error + 'a option" where
  "findE p [] = Inr None"
| "findE p (x # xs) =
     (case p x of Inl e \<Rightarrow> Inl e | Inr b \<Rightarrow> if b then Inr (Some x) else findE p xs)"

definition find_member_badge :: "json \<Rightarrow> error + json option" where
  "find_member_badge badges =
     (case badges of JArr bs \<Rightarrow> findE is_member_badge bs | _ \<Rightarrow> Inl TypeError)"

definition member_of :: "json \<Rightarrow> error + json" where
  "member_of source =
     (let badges =
            (if truthy (getVal [''actionButtons'', ''commentActionButtonsRenderer'', ''protoCreation'',
                                ''contents'', ''0'', ''commentActionButtonRenderer'', ''trackingParams''] source)
             then JArr []
             else or_else (getVal [''authorBadges''] source) (JArr []));
          sponsorBadge = getVal [''sponsorCommentBadge''] source;
          member = (if truthy sponsorBadge
                    then or_else (walk_path [''sponsorCommentBadgeRenderer'', ''tooltip''] sponsorBadge)
                                 (JStr ''Member'')
                    else JStr '''')
      in bindE (find_member_badge badges) (\<lambda>memberBadge.
           case memberBadge of
             None \<Rightarrow> Inr member
           | Some b \<Rightarrow>
               if truthy b
               then Inr (or_else (walk_path [''liveChatAuthorBadgeRenderer'', ''tooltip''] b) (JStr ''Member''))
               else Inr member))"

definition resolveComment :: "json \<Rightarrow> entity_store \<Rightarrow> error + comment option" where
  "resolveComment viewModel entityStore =
     (if \<not> truthy viewModel then Inr None
      else
        let source = resolve_source viewModel entityStore in
        bindE (text_of source) (\<lambda>text.
        let author = or_else (author_of source) (JStr ''Unknown'');
            time = or_else (getVal [''publishedTimeText'', ''runs'', ''0'', ''text''] source)
                  (or_else (getVal [''properties'', ''publishedTime''] source)
                  (or_else (getVal [''commentEntityPayload'', ''properties'', ''publishedTime''] source)
                           (JStr '''')));
            likes = or_else (getVal [''voteCount'', ''simpleText''] source)
                   (or_else (getVal [''toolbar'', ''likeCount''] source) (JStr ''0''));
            authorImg = getVal [''authorThumbnail'', ''thumbnails'', ''0'', ''url''] source
        in
        bindE (absolute_url
                 (or_else (getVal [''authorEndpoint'', ''browseEndpoint'', ''canonicalBaseUrl''] source)
                 (or_else (getVal [''authorEndpoint'', ''commandMetadata'', ''webCommandMetadata'', ''url''] source)
                          (JStr '''')))) (\<lambda>authorUrl.
        let isChannelOwner = or_else (getVal [''authorIsChannelOwner''] source) (JBool False) in
        bindE (member_of source) (\<lambda>member.
        let isMember = JBool (truthy member);
            ident = identity_of viewModel entityStore
        in
        if \<not> truthy text \<and> \<not> truthy author \<and> \<not> truthy ident then Inr None
        else Inr (Some \<lparr>c_id = ident, c_author = author, c_text = text, c_time = time, c_likes = likes,
                        c_authorUrl = authorUrl, c_isChannelOwner = isChannelOwner,
                        c_isMember = isMember, c_member = member, c_authorImg = authorImg,
                        c_isReply = JUndef, c_parentId = JUndef, c_replies = JUndef\<rparr>)))))"



definition node_keyed :: json where
  "node_keyed = JObj [(''commentKey'', JStr ''k1'')]"

definition store_k1 :: entity_store where
  "store_k1 = [(JStr ''k1'', JObj [
      (''properties'', JObj [(''commentId'', JStr ''c1''), (''content'', JObj [(''content'', JStr ''hello'')]),
                            (''publishedTime'', JStr ''1 day ago'')]),
      (''author'', JObj [(''displayName'', JStr ''@ann'')])])]"

subsection \<open>Properties of the resolver\<close>

lemma truthy_or_else [simp]: "truthy (or_else a b) \<longleftrightarrow> truthy a \<or> truthy b"
  by (simp add: or_else_def)




















section \<open>Threads and replies: \<open>processCommentThread\<close> and \<open>fetchReplies\<close>\<close>

text \<open>
  What a harvest shares between its asynchronous functions and what it does to the
  outside: the entity store (one \<open>Map\<close>, mutated in place), the number of calls of
  \<open>fetch\<close> made so far, the continuations that \<open>fetchReplies\<close> has requested, in order,
  and the \<open>replyTokenCollector\<close> array of the batch being parsed.

  The functions below run one at a time, each from its call to its return: of the
  interleavings that the awaits allow, the model takes the one in which nothing else runs
  while a call is waiting for the network.
\<close>

record reply_token =
  rt_token :: json
  rt_parentId :: json

record harvest_state =
  entityStore :: entity_store
  fetch_calls :: nat
  reply_log :: "json list"
  replyTokenCollector :: "reply_token list"

text \<open>
  The environment of the page: whether \<open>window.ytcfg\<close> yields an API key and a context,
  the URL of the \<open>next\<close> endpoint, and the network, as for \<open>fetchWithRetry\<close>. A request is
  the continuation and the click-tracking parameter of its body.
\<close>

record request =
  rq_continuation :: json
  rq_clickTrackingParams :: json

record env =
  ytcfg_ready :: bool
  next_url :: string
  net :: "string \<Rightarrow> request \<Rightarrow> nat \<Rightarrow> json outcome"

text \<open>
  A computation that reads and changes the shared state and returns or throws; what it
  did to the state before a throw stays done.
\<close>

type_synonym 'a io = "harvest_state \<Rightarrow> (error + 'a) \<times> harvest_state"

definition returnS :: "'a \<Rightarrow> 'a io" where
  "returnS v = (\<lambda>s. (Inr v, s))"

definition liftE :: "error + 'a \<Rightarrow> 'a io" where
  "liftE m = (\<lambda>s. (m, s))"

definition bindS :: "'a io \<Rightarrow> ('a \<Rightarrow> 'b io) \<Rightarrow> 'b io" where
  "bindS m f = (\<lambda>s. case m s of (Inl e, s') \<Rightarrow> (Inl e, s') | (Inr v, s') \<Rightarrow> f v s')"

text \<open>\<open>try { m } catch (e) { h }\<close>; running out of fuel is not an exception.\<close>

definition catchS :: "'a io \<Rightarrow> 'a io \<Rightarrow> 'a io" where
  "catchS m h = (\<lambda>s. case m s of
                     (Inl e, s') \<Rightarrow> if e = OutOfFuel then (Inl e, s') else h s'
                   | (Inr v, s') \<Rightarrow> (Inr v, s'))"

text \<open>\<open>for (const x of xs) { ... }\<close> with a local accumulator.\<close>

fun foldS :: "('a \<Rightarrow> 'r \<Rightarrow> 'r io) \<Rightarrow> 'a list \<Rightarrow> 'r \<Rightarrow> 'r io" where
  "foldS f [] acc = returnS acc"
| "foldS f (x # xs) acc = bindS (f x acc) (\<lambda>acc'. foldS f xs acc')"

text \<open>
  The legacy shapes, built field by field in \<open>processCommentThread\<close>.
  \<^verbatim>\<open>cr.contentText?.runs?.map(r => r.text).join('') || ''\<close>: only an array has \<open>map\<close>.
\<close>

definition runs_text :: "json \<Rightarrow> error + json" where
  "runs_text cr =
     (let runs = walk_path [''contentText'', ''runs''] cr in
      if nullish runs then Inr (JStr '''')
      else case runs of
             JArr rs \<Rightarrow> bindE (mapE (read_prop ''text'') rs) (\<lambda>ts. Inr (or_else (JStr (js_join ts)) (JStr '''')))
           | _ \<Rightarrow> Inl TypeError)"

text \<open>
  \<^verbatim>\<open>cr.authorBadges?.some(b => ...includes('Member')) || false\<close> and
  \<^verbatim>\<open>cr.authorBadges?.find(b => ...includes('Member'))?.liveChatAuthorBadgeRenderer?.tooltip || ""\<close>
\<close>

definition legacy_member_badge :: "json \<Rightarrow> error + json option" where
  "legacy_member_badge cr =
     (if nullish (get ''authorBadges'' cr) then Inr None
      else find_member_badge (get ''authorBadges'' cr))"

definition legacy_root :: "json \<Rightarrow> error + comment" where
  "legacy_root cr =
     bindE (runs_text cr) (\<lambda>text.
     bindE (legacy_member_badge cr) (\<lambda>badge.
     bindE (absolute_url
              (or_else (walk_path [''authorEndpoint'', ''browseEndpoint'', ''canonicalBaseUrl''] cr)
              (or_else (walk_path [''authorEndpoint'', ''commandMetadata'', ''webCommandMetadata'', ''url''] cr)
                       (JStr '''')))) (\<lambda>authorUrl.
     Inr \<lparr>c_id = or_else (get ''commentId'' cr) (JStr ''''),
          c_author = or_else (walk_path [''authorText'', ''simpleText''] cr) (JStr ''Unknown''),
          c_text = text,
          c_time = or_else (walk_path [''publishedTimeText'', ''runs'', ''0'', ''text''] cr) (JStr ''''),
          c_likes = or_else (walk_path [''voteCount'', ''simpleText''] cr) (JStr ''0''),
          c_authorUrl = authorUrl,
          c_isChannelOwner = or_else (get ''authorIsChannelOwner'' cr) (JBool False),
          c_isMember = JBool (badge \<noteq> None),
          c_member = (case badge of
                        None \<Rightarrow> JStr ''''
                      | Some b \<Rightarrow> or_else (walk_path [''liveChatAuthorBadgeRenderer'', ''tooltip''] b) (JStr '''')),
          c_authorImg = or_else (walk_path [''authorThumbnail'', ''thumbnails'', ''0'', ''url''] cr) (JStr ''''),
          c_isReply = JUndef, c_parentId = JUndef, c_replies = JUndef\<rparr>)))"

definition legacy_reply :: "json \<Rightarrow> json \<Rightarrow> error + comment" where
  "legacy_reply r parent =
     bindE (runs_text r) (\<lambda>text.
     Inr \<lparr>c_id = or_else (get ''commentId'' r) (JStr ''''),
          c_author = or_else (walk_path [''authorText'', ''simpleText''] r) (JStr ''Unknown''),
          c_text = text,
          c_time = or_else (walk_path [''publishedTimeText'', ''runs'', ''0'', ''text''] r) (JStr ''''),
          c_likes = or_else (walk_path [''voteCount'', ''simpleText''] r) (JStr ''0''),
          c_authorUrl = JUndef, c_isChannelOwner = JUndef, c_isMember = JUndef, c_member = JUndef,
          c_authorImg = JUndef,
          c_isReply = JBool True, c_parentId = parent, c_replies = JUndef\<rparr>)"

text \<open>
  The root of a thread: \<open>resolveComment\<close> on the view model, or else the legacy renderer
  built in place, or else none.
\<close>

definition thread_root :: "json \<Rightarrow> entity_store \<Rightarrow> error + comment option" where
  "thread_root threadRenderer store =
     (if truthy (walk_path [''commentViewModel'', ''commentViewModel''] threadRenderer)
      then resolveComment (walk_path [''commentViewModel'', ''commentViewModel''] threadRenderer) store
      else if truthy (walk_path [''comment'', ''commentRenderer''] threadRenderer)
      then bindE (legacy_root (walk_path [''comment'', ''commentRenderer''] threadRenderer)) (\<lambda>c. Inr (Some c))
      else Inr None)"

text \<open>\<open>rootComment?.id\<close>\<close>

definition root_id :: "comment option \<Rightarrow> json" where
  "root_id rootComment = (case rootComment of None \<Rightarrow> JUndef | Some c \<Rightarrow> c_id c)"

text \<open>
  \<^verbatim>\<open>const r = resolveComment(x, entityStore);
  if (r) { r.isReply = true; r.parentId = parent; results.push(r); }\<close>
\<close>

definition push_resolved :: "json \<Rightarrow> json \<Rightarrow> comment list \<Rightarrow> comment list io" where
  "push_resolved x parent results =
     (\<lambda>s. case resolveComment x (entityStore s) of
            Inl e \<Rightarrow> (Inl e, s)
          | Inr None \<Rightarrow> (Inr results, s)
          | Inr (Some r) \<Rightarrow> (Inr (results @ [r\<lparr>c_isReply := JBool True, c_parentId := parent\<rparr>]), s))"

text \<open>
  The token of a \<open>continuationItemRenderer\<close>:
  \<^verbatim>\<open>let token = cir.continuationEndpoint;
  if (!token) {
      const button = cir.button?.buttonRenderer;
      if (button) token = button.command || button.navigationEndpoint || button.serviceEndpoint;
  }\<close>
\<close>

definition continuation_endpoint :: "json \<Rightarrow> json" where
  "continuation_endpoint cir =
     (if truthy (get ''continuationEndpoint'' cir) then get ''continuationEndpoint'' cir
      else let button = walk_path [''button'', ''buttonRenderer''] cir in
           if truthy button
           then or_else (get ''command'' button)
               (or_else (get ''navigationEndpoint'' button) (get ''serviceEndpoint'' button))
           else get ''continuationEndpoint'' cir)"

text \<open>
  \<^verbatim>\<open>if (replyTokenCollector) {
      replyTokenCollector.push({ token, parentId: rootComment?.id });
  } else {
      const hidden = await fetchReplies(token, entityStore, rootComment?.id);
      if (hidden) results.push(...hidden);
  }\<close>
  \<open>fetch\<close> stands for the call of \<open>fetchReplies\<close>.
\<close>

definition push_fetched ::
  "(json \<Rightarrow> json \<Rightarrow> comment list option io) \<Rightarrow> json \<Rightarrow> json \<Rightarrow> comment list \<Rightarrow> comment list io" where
  "push_fetched fetch token parent results =
     bindS (fetch token parent) (\<lambda>hidden.
       returnS (case hidden of None \<Rightarrow> results | Some rs \<Rightarrow> results @ rs))"

definition collect_or_fetch ::
  "bool \<Rightarrow> (json \<Rightarrow> json \<Rightarrow> comment list option io) \<Rightarrow> json \<Rightarrow> json \<Rightarrow> comment list \<Rightarrow> comment list io" where
  "collect_or_fetch collect fetch token parent results =
     (if collect
      then (\<lambda>s. (Inr results,
                 s\<lparr>replyTokenCollector := replyTokenCollector s @ [\<lparr>rt_token = token, rt_parentId = parent\<rparr>]\<rparr>))
      else push_fetched fetch token parent results)"

text \<open>
  The nested thread of \<open>processCommentThread\<close>: \<open>nested\<close> stands for the recursive call.
  \<^verbatim>\<open>try {
      const threads = await processCommentThread(sub.commentThreadRenderer, entityStore, depth + 1);
      if (threads && threads.length > 0) {
          threads.forEach(t => {
              t.isReply = true;
              if (rootComment?.id) t.parentId = rootComment.id;
          });
          results.push(...threads);
      }
  } catch (err) { console.error(...); }\<close>
\<close>

definition adopt :: "json \<Rightarrow> comment \<Rightarrow> comment" where
  "adopt parent t = (if truthy parent then t\<lparr>c_isReply := JBool True, c_parentId := parent\<rparr>
                     else t\<lparr>c_isReply := JBool True\<rparr>)"

definition push_nested :: "comment list io \<Rightarrow> json \<Rightarrow> comment list \<Rightarrow> comment list io" where
  "push_nested nested parent results =
     catchS (bindS nested (\<lambda>threads. returnS (results @ map (adopt parent) threads)))
            (returnS results)"

text \<open>One round of the loop over the merged items of the replies renderer.\<close>

definition sub_step ::
  "bool \<Rightarrow> (json \<Rightarrow> comment list io) \<Rightarrow> (json \<Rightarrow> json \<Rightarrow> comment list option io) \<Rightarrow> json
     \<Rightarrow> json \<Rightarrow> comment list \<Rightarrow> comment list io" where
  "sub_step collect nested fetch parent sub results =
     (if nullish sub then liftE (Inl TypeError)
      else if truthy (get ''commentRenderer'' sub)
        then bindS (liftE (legacy_reply (get ''commentRenderer'' sub) parent))
               (\<lambda>r. returnS (results @ [r]))
      else if truthy (walk_path [''commentViewModel'', ''commentViewModel''] sub)
        then push_resolved (walk_path [''commentViewModel'', ''commentViewModel''] sub) parent results
      else if truthy (get ''commentThreadRenderer'' sub)
        then push_nested (nested (get ''commentThreadRenderer'' sub)) parent results
      else if truthy (get ''continuationItemRenderer'' sub)
        then (let token = continuation_endpoint (get ''continuationItemRenderer'' sub) in
              if truthy token then collect_or_fetch collect fetch token parent results
              else returnS results)
      else returnS results)"

text \<open>
  B, the button under the visible replies; B2, the \<open>continuations\<close> array. Both hand
  on the token string, not an endpoint.
\<close>

definition view_replies_step ::
  "bool \<Rightarrow> (json \<Rightarrow> json \<Rightarrow> comment list option io) \<Rightarrow> json \<Rightarrow> json \<Rightarrow> comment list \<Rightarrow> comment list io" where
  "view_replies_step collect fetch parent repliesRenderer results =
     (if truthy (get ''viewReplies'' repliesRenderer) then
        (let button = walk_path [''viewReplies'', ''buttonRenderer''] repliesRenderer in
         if truthy button then
           (let command = or_else (get ''command'' button)
                         (or_else (get ''navigationEndpoint'' button) (get ''serviceEndpoint'' button));
                token = walk_path [''continuationCommand'', ''token''] command
            in if truthy token then collect_or_fetch collect fetch token parent results
               else returnS results)
         else returnS results)
      else returnS results)"

definition continuations_step ::
  "bool \<Rightarrow> (json \<Rightarrow> json \<Rightarrow> comment list option io) \<Rightarrow> json \<Rightarrow> json \<Rightarrow> comment list \<Rightarrow> comment list io" where
  "continuations_step collect fetch parent cont results =
     (if nullish cont then liftE (Inl TypeError)
      else
        let token =
              or_else (walk_path [''nextContinuationData'', ''continuation''] cont)
             (or_else (walk_path [''continuationItemRenderer'', ''continuationEndpoint'',
                                  ''continuationCommand'', ''token''] cont)
                      (walk_path [''continuationItemRenderer'', ''button'', ''buttonRenderer'', ''command'',
                                  ''continuationCommand'', ''token''] cont))
        in if truthy token then collect_or_fetch collect fetch token parent results
           else returnS results)"

text \<open>
  C, the second pass over \<open>contents\<close>. It calls \<open>fetchReplies\<close> whether or not there is a
  collector.
\<close>

definition contents_step ::
  "(json \<Rightarrow> json \<Rightarrow> comment list option io) \<Rightarrow> json \<Rightarrow> json \<Rightarrow> comment list \<Rightarrow> comment list io" where
  "contents_step fetch parent item results =
     (if nullish item then liftE (Inl TypeError)
      else if truthy (get ''commentRenderer'' item)
        then push_resolved (get ''commentRenderer'' item) parent results
      else if truthy (walk_path [''commentViewModel'', ''commentViewModel''] item)
        then push_resolved (walk_path [''commentViewModel'', ''commentViewModel''] item) parent results
      else if truthy (get ''continuationItemRenderer'' item)
        then (let token = walk_path [''continuationItemRenderer'', ''continuationEndpoint''] item in
              if truthy token then push_fetched fetch token parent results
              else returnS results)
      else returnS results)"

text \<open>\<open>...(v || [])\<close>\<close>

definition spread :: "json \<Rightarrow> error + json list" where
  "spread v = (if truthy v then iterate v else Inr [])"

definition allSubThreads :: "json \<Rightarrow> error + json list" where
  "allSubThreads repliesRenderer =
     bindE (spread (get ''contents'' repliesRenderer)) (\<lambda>a.
     bindE (spread (get ''subThreads'' repliesRenderer)) (\<lambda>b.
     bindE (spread (walk_path [''viewReplies'', ''buttonRenderer'', ''subThreads''] repliesRenderer)) (\<lambda>c.
     bindE (spread (get ''continuationItems'' repliesRenderer)) (\<lambda>d.
     Inr (a @ b @ c @ d)))))"

text \<open>
  The body of \<open>processCommentThread\<close> below the depth check, with its two recursive calls
  as parameters.
\<close>

definition thread_replies ::
  "bool \<Rightarrow> (json \<Rightarrow> comment list io) \<Rightarrow> (json \<Rightarrow> json \<Rightarrow> comment list option io) \<Rightarrow> json
     \<Rightarrow> json \<Rightarrow> comment list \<Rightarrow> comment list io" where
  "thread_replies collect nested fetch parent repliesRenderer results =
     bindS (liftE (allSubThreads repliesRenderer)) (\<lambda>subs.
       if subs \<noteq> [] then
         bindS (foldS (sub_step collect nested fetch parent) subs results) (\<lambda>results.
         bindS (view_replies_step collect fetch parent repliesRenderer results) (\<lambda>results.
         bindS (if truthy (get ''continuations'' repliesRenderer)
                then bindS (liftE (iterate (get ''continuations'' repliesRenderer)))
                       (\<lambda>conts. foldS (continuations_step collect fetch parent) conts results)
                else returnS results) (\<lambda>results.
         if truthy (get ''contents'' repliesRenderer)
         then bindS (liftE (iterate (get ''contents'' repliesRenderer)))
                (\<lambda>items. foldS (contents_step fetch parent) items results)
         else returnS results)))
       else returnS results)"

definition thread_body ::
  "bool \<Rightarrow> (json \<Rightarrow> comment list io) \<Rightarrow> (json \<Rightarrow> json \<Rightarrow> comment list option io) \<Rightarrow> json
     \<Rightarrow> comment list io" where
  "thread_body collect nested fetch threadRenderer =
     bindS (\<lambda>s. (thread_root threadRenderer (entityStore s), s)) (\<lambda>rootComment.
       let results = (case rootComment of None \<Rightarrow> [] | Some c \<Rightarrow> [c\<lparr>c_isReply := JBool False\<rparr>]);
           repliesRenderer = walk_path [''replies'', ''commentRepliesRenderer''] threadRenderer
       in if truthy repliesRenderer
          then thread_replies collect nested fetch (root_id rootComment) repliesRenderer results
          else returnS results)"

text \<open>
  The request of both fetch functions:
  \<^verbatim>\<open>const response = await fetchWithRetry(`https://www.youtube.com/youtubei/v1/next?key=${apiKey}`, {
      method: 'POST', headers: ..., body: JSON.stringify(body), credentials: 'include' });\<close>
\<close>

definition post :: "env \<Rightarrow> request \<Rightarrow> json response io" where
  "post e rq =
     (\<lambda>s. case fetchWithRetry (net e) (next_url e) rq (fetch_calls s) 5 1000 of
            (r, tr) \<Rightarrow> (Inr r, s\<lparr>fetch_calls := fetch_calls s + attempts tr\<rparr>))"

text \<open>
  \<^verbatim>\<open>const data = await response.json();
  console.log('...', Object.keys(data));\<close>
  \<open>json()\<close> rejects when the body is not JSON; \<open>Object.keys\<close> throws on \<open>null\<close>.
\<close>

definition response_data :: "json response \<Rightarrow> error + json" where
  "response_data r =
     (case payload r of
        None \<Rightarrow> Inl SyntaxError
      | Some data \<Rightarrow> if nullish data then Inl TypeError else Inr data)"

definition merge_response :: "json \<Rightarrow> unit io" where
  "merge_response data =
     (\<lambda>s. case mergeFrameworkUpdates data (entityStore s) of
            Inl e \<Rightarrow> (Inl e, s)
          | Inr store \<Rightarrow> (Inr (), s\<lparr>entityStore := store\<rparr>))"

text \<open>
  The items that \<open>fetchReplies\<close> gathers from the actions of a response:
  \<^verbatim>\<open>const items = action.reloadContinuationItemsCommand?.continuationItems ||
                action.appendContinuationItemsAction?.continuationItems;
  if (items && items.length > 0) allTargetItems.push(...items);\<close>
\<close>

definition continuation_items :: "json \<Rightarrow> error + json" where
  "continuation_items action =
     bindE (read_prop ''reloadContinuationItemsCommand'' action) (\<lambda>reload.
       Inr (or_else (get ''continuationItems'' reload)
                    (walk_path [''appendContinuationItemsAction'', ''continuationItems''] action)))"

definition target_items :: "json \<Rightarrow> error + json list" where
  "target_items action =
     bindE (continuation_items action) (\<lambda>items.
       case items of
         JArr xs \<Rightarrow> Inr xs
       | JStr s \<Rightarrow> Inr (map (\<lambda>c. JStr [c]) s)
       | _ \<Rightarrow> Inr [])"

definition allTargetItems :: "json \<Rightarrow> error + json list" where
  "allTargetItems actions =
     bindE (iterate actions) (\<lambda>as. bindE (mapE target_items as) (\<lambda>xss. Inr (concat xss)))"

text \<open>
  The nested thread of \<open>fetchReplies\<close>, where every record gets the parent of the fetch:
  \<^verbatim>\<open>threads.forEach(t => { t.isReply = true; t.parentId = parentId; });\<close>
\<close>

definition push_thread :: "comment list io \<Rightarrow> json \<Rightarrow> comment list \<Rightarrow> comment list io" where
  "push_thread nested parent results =
     catchS (bindS nested (\<lambda>threads.
               returnS (results @ map (\<lambda>t. t\<lparr>c_isReply := JBool True, c_parentId := parent\<rparr>) threads)))
            (returnS results)"

definition reply_item_step ::
  "(json \<Rightarrow> comment list io) \<Rightarrow> (json \<Rightarrow> json \<Rightarrow> comment list option io) \<Rightarrow> json
     \<Rightarrow> json \<Rightarrow> comment list \<Rightarrow> comment list io" where
  "reply_item_step nested fetch parent item collected =
     (if nullish item then liftE (Inl TypeError)
      else if truthy (get ''commentRenderer'' item)
        then push_resolved (get ''commentRenderer'' item) parent collected
      else if truthy (walk_path [''commentViewModel'', ''commentViewModel''] item)
        then push_resolved (walk_path [''commentViewModel'', ''commentViewModel''] item) parent collected
      else if truthy (get ''commentThreadRenderer'' item)
        then push_thread (nested (get ''commentThreadRenderer'' item)) parent collected
      else if truthy (get ''continuationItemRenderer'' item)
        then (let nextToken = continuation_endpoint (get ''continuationItemRenderer'' item) in
              if truthy nextToken then push_fetched fetch nextToken parent collected
              else returnS collected)
      else returnS collected)"

text \<open>What \<open>fetchReplies\<close> does with a response that is \<open>ok\<close>.\<close>

definition replies_of_response ::
  "(json \<Rightarrow> comment list io) \<Rightarrow> (json \<Rightarrow> json \<Rightarrow> comment list option io) \<Rightarrow> json
     \<Rightarrow> json response \<Rightarrow> comment list option io" where
  "replies_of_response nested fetch parent response =
     bindS (liftE (response_data response)) (\<lambda>data.
     bindS (merge_response data) (\<lambda>_.
       let actions = get ''onResponseReceivedEndpoints'' data in
       if truthy actions then
         bindS (liftE (allTargetItems actions)) (\<lambda>items.
         bindS (foldS (reply_item_step nested fetch parent) items []) (\<lambda>collected.
         returnS (Some collected)))
       else returnS (Some [])))"

text \<open>
  \<^verbatim>\<open>async function processCommentThread(threadRenderer, entityStore, depth = 0, replyTokenCollector = null)\<close>
  and \<^verbatim>\<open>async function fetchReplies(endpoint, entityStore, parentId)\<close>. \<open>collect\<close> says
  whether a collector was passed. \<open>fuel\<close> bounds how deep calls of \<open>fetchReplies\<close> that
  reach the network may nest; each such call logs its continuation.
\<close>

function processCommentThread :: "env \<Rightarrow> nat \<Rightarrow> json \<Rightarrow> nat \<Rightarrow> bool \<Rightarrow> comment list io"
  and fetchReplies :: "env \<Rightarrow> nat \<Rightarrow> json \<Rightarrow> json \<Rightarrow> comment list option io" where
  "processCommentThread e fuel threadRenderer depth collect =
     (if depth > 100 then returnS []
      else thread_body collect
             (\<lambda>t. processCommentThread e fuel t (depth + 1) False)
             (\<lambda>token parent. fetchReplies e fuel token parent)
             threadRenderer)"
| "fetchReplies e fuel endpoint parentId =
     catchS
       (let continuation = walk_path [''continuationCommand'', ''token''] endpoint;
            clickTrackingParams =
              or_else (walk_path [''continuationCommand'', ''clickTrackingParams''] endpoint)
                      (get ''clickTrackingParams'' endpoint)
        in if \<not> ytcfg_ready e \<or> \<not> truthy continuation then returnS None
           else case fuel of
                  0 \<Rightarrow> liftE (Inl OutOfFuel)
                | Suc fuel' \<Rightarrow>
                    bindS (\<lambda>s. (Inr (), s\<lparr>reply_log := reply_log s @ [continuation]\<rparr>)) (\<lambda>_.
                    bindS (post e \<lparr>rq_continuation = continuation,
                                   rq_clickTrackingParams = clickTrackingParams\<rparr>) (\<lambda>response.
                      if \<not> ok response then returnS None
                      else replies_of_response
                             (\<lambda>t. processCommentThread e fuel' t 1 False)
                             (\<lambda>token parent. fetchReplies e fuel' token parent)
                             parentId response)))
       (returnS None)"
  by pat_completeness auto
termination
  by (relation "measures
        [\<lambda>x. case x of Inl (e, fuel, t, depth, c) \<Rightarrow> 2 * fuel + 1 | Inr (e, fuel, ep, p) \<Rightarrow> 2 * fuel,
         \<lambda>x. case x of Inl (e, fuel, t, depth, c) \<Rightarrow> 101 - depth | Inr (e, fuel, ep, p) \<Rightarrow> 0]")
     auto

text \<open>
  A page with an API key and a context, and a network that knows four continuations.
  The seed \<open>T0\<close> answers with two threads, \<open>c1\<close> whose replies are behind \<open>R1\<close> and \<open>c2\<close>
  whose replies are behind \<open>R2\<close>, and with a next token \<open>T1\<close>. \<open>R1\<close> answers with one reply
  and a continuation item that leads to \<open>R2\<close>; \<open>R2\<close> answers with one reply. The seed
  \<open>S0\<close> answers with the single thread \<open>c3\<close>, which has no replies, and with the next
  token \<open>T1\<close>. Everything else, \<open>T1\<close> too, is unreachable.
\<close>

definition reply_json :: "string \<Rightarrow> json" where
  "reply_json i = JObj [(''commentRenderer'', JObj [(''commentId'', JStr i)])]"

definition endpoint_json :: "string \<Rightarrow> json" where
  "endpoint_json t = JObj [(''continuationCommand'', JObj [(''token'', JStr t)])]"

definition append_action :: "json list \<Rightarrow> json" where
  "append_action items =
     JObj [(''onResponseReceivedEndpoints'',
            JArr [JObj [(''appendContinuationItemsAction'', JObj [(''continuationItems'', JArr items)])]])]"

definition thread_renderer :: "string \<Rightarrow> string \<Rightarrow> json" where
  "thread_renderer c r =
     JObj [(''comment'', JObj [(''commentRenderer'', JObj [(''commentId'', JStr c)])]),
           (''replies'', JObj [(''commentRepliesRenderer'', JObj [(''subThreads'', JArr [
              JObj [(''continuationItemRenderer'', JObj [(''continuationEndpoint'', endpoint_json r)])]])])])]"

definition lone_thread :: "string \<Rightarrow> json" where
  "lone_thread c = JObj [(''comment'', JObj [(''commentRenderer'', JObj [(''commentId'', JStr c)])])]"

definition demo_net :: "string \<Rightarrow> request \<Rightarrow> nat \<Rightarrow> json outcome" where
  "demo_net u rq k =
     (if rq_continuation rq = JStr ''R1'' then
        Responded \<lparr>ok = True, status = 200, payload = Some (append_action
          [reply_json ''a'',
           JObj [(''continuationItemRenderer'', JObj [(''continuationEndpoint'', endpoint_json ''R2'')])]])\<rparr>
      else if rq_continuation rq = JStr ''R2'' then
        Responded \<lparr>ok = True, status = 200, payload = Some (append_action [reply_json ''b''])\<rparr>
      else if rq_continuation rq = JStr ''T0'' then
        Responded \<lparr>ok = True, status = 200, payload = Some (append_action
          [JObj [(''commentThreadRenderer'', thread_renderer ''c1'' ''R1'')],
           JObj [(''commentThreadRenderer'', thread_renderer ''c2'' ''R2'')],
           JObj [(''continuationItemRenderer'', JObj [(''continuationEndpoint'', endpoint_json ''T1'')])]])\<rparr>
      else if rq_continuation rq = JStr ''S0'' then
        Responded \<lparr>ok = True, status = 200, payload = Some (append_action
          [JObj [(''commentThreadRenderer'', lone_thread ''c3'')],
           JObj [(''continuationItemRenderer'', JObj [(''continuationEndpoint'', endpoint_json ''T1'')])]])\<rparr>
      else NetworkError)"

definition demo_env :: env where
  "demo_env = \<lparr>ytcfg_ready = True, next_url = ''https://www.youtube.com/youtubei/v1/next'', net = demo_net\<rparr>"

definition start_state :: harvest_state where
  "start_state = \<lparr>entityStore = [], fetch_calls = 0, reply_log = [], replyTokenCollector = []\<rparr>"



subsection \<open>Properties of threads and replies\<close>

declare processCommentThread.simps [simp del] fetchReplies.simps [simp del]

lemma returnS_eq [simp]: "returnS v s = (r, s') \<longleftrightarrow> r = Inr v \<and> s' = s"
  by (auto simp: returnS_def)

lemma liftE_eq [simp]: "liftE m s = (r, s') \<longleftrightarrow> m = r \<and> s' = s"
  by (auto simp: liftE_def)



text \<open>\<open>appended R acc acc'\<close>: \<open>acc'\<close> is \<open>acc\<close> with records pushed that all satisfy \<open>R\<close>.\<close>

definition appended :: "(comment \<Rightarrow> bool) \<Rightarrow> comment list \<Rightarrow> comment list \<Rightarrow> bool" where
  "appended R acc acc' \<longleftrightarrow> (\<exists>new. acc' = acc @ new \<and> (\<forall>r \<in> set new. R r))"

lemma appended_refl [simp]: "appended R acc acc"
  by (simp add: appended_def)








lemma appended_mono: "(\<And>r. R r \<Longrightarrow> R' r) \<Longrightarrow> appended R a b \<Longrightarrow> appended R' a b"
  by (auto simp: appended_def)





























text \<open>Evaluating the model on concrete input: the definitions to unfold.\<close>

lemmas io_defs = returnS_def liftE_def bindS_def catchS_def Let_def

lemmas json_defs = or_else_def getVal_def read_prop_def nullish_def index_of_def digit_def

lemmas resolver_defs = resolveComment_def resolve_source_def text_of_def author_of_def identity_of_def
  extractText_def orE_def absolute_url_def member_of_def find_member_badge_def is_member_badge_def
  run_text_def Map_get_def js_join_def startsWith_def

lemmas thread_defs = thread_body_def thread_replies_def thread_root_def root_id_def sub_step_def
  view_replies_step_def continuations_step_def contents_step_def push_resolved_def push_fetched_def
  push_nested_def push_thread_def collect_or_fetch_def continuation_endpoint_def allSubThreads_def
  spread_def legacy_root_def legacy_reply_def legacy_member_badge_def runs_text_def adopt_def
  replies_of_response_def reply_item_step_def allTargetItems_def target_items_def continuation_items_def
  response_data_def merge_response_def mergeFrameworkUpdates_def

lemma demo_env_simps [simp]:
  "ytcfg_ready demo_env" "net demo_env = demo_net"
  by (simp_all add: demo_env_def)

lemma endpoint_json_simps [simp]:
  "truthy (endpoint_json t)"
  "get ''token'' (get ''continuationCommand'' (endpoint_json t)) = JStr t"
  "get ''clickTrackingParams'' (get ''continuationCommand'' (endpoint_json t)) = JUndef"
  "get ''clickTrackingParams'' (endpoint_json t) = JUndef"
  by (simp_all add: endpoint_json_def)

lemmas demo_defs = demo_net_def start_state_def reply_json_def append_action_def

lemma fetchWithRetry_first_ok:
  "nw url rq k = Responded r \<Longrightarrow> ok r \<Longrightarrow> fetchWithRetry nw url rq k n b = (r, [Attempt])"
  by (cases n) (auto simp: fetchWithRetry.simps)

lemma post_ok:
  "net e (next_url e) rq (fetch_calls s) = Responded r \<Longrightarrow> ok r \<Longrightarrow>
   post e rq s = (Inr r, s\<lparr>fetch_calls := Suc (fetch_calls s)\<rparr>)"
  by (simp add: post_def fetchWithRetry_first_ok)



lemma demo_fetch_R2:
  "fetchReplies demo_env (Suc fuel) (endpoint_json ''R2'') parent
      \<lparr>entityStore = [], fetch_calls = k, reply_log = log, replyTokenCollector = c\<rparr> =
     (Inr (Some [blank\<lparr>c_id := JStr ''b'', c_author := JStr ''Unknown'', c_text := JStr [], c_time := JStr [],
                c_likes := JStr ''0'', c_authorUrl := JStr [], c_isChannelOwner := JBool False,
                c_isMember := JBool False, c_member := JStr [],
                c_isReply := JBool True, c_parentId := parent\<rparr>]),
      \<lparr>entityStore = [], fetch_calls = Suc k, reply_log = log @ [JStr ''R2''], replyTokenCollector = c\<rparr>)"
  by (subst fetchReplies.simps)
     (simp add: demo_defs io_defs json_defs thread_defs resolver_defs blank_def post_ok)

lemma demo_fetch_R1:
  "fetchReplies demo_env (Suc (Suc fuel)) (endpoint_json ''R1'') parent
      \<lparr>entityStore = [], fetch_calls = k, reply_log = log, replyTokenCollector = c\<rparr> =
     (Inr (Some [blank\<lparr>c_id := JStr ''a'', c_author := JStr ''Unknown'', c_text := JStr [], c_time := JStr [],
                c_likes := JStr ''0'', c_authorUrl := JStr [], c_isChannelOwner := JBool False,
                c_isMember := JBool False, c_member := JStr [],
                c_isReply := JBool True, c_parentId := parent\<rparr>,
               blank\<lparr>c_id := JStr ''b'', c_author := JStr ''Unknown'', c_text := JStr [], c_time := JStr [],
                c_likes := JStr ''0'', c_authorUrl := JStr [], c_isChannelOwner := JBool False,
                c_isMember := JBool False, c_member := JStr [],
                c_isReply := JBool True, c_parentId := parent\<rparr>]),
      \<lparr>entityStore = [], fetch_calls = Suc (Suc k), reply_log = log @ [JStr ''R1'', JStr ''R2''],
       replyTokenCollector = c\<rparr>)"
  by (subst fetchReplies.simps)
     (simp add: demo_defs io_defs json_defs thread_defs resolver_defs blank_def post_ok demo_fetch_R2)




section \<open>Token walker: \<open>fetchCommentsViaContinuation\<close> and the loop of \<open>extractComments\<close>\<close>

text \<open>
  The yield of one main fetch. The failure result \<^verbatim>\<open>{ comments: [], nextToken: null }\<close> has
  no \<open>replyTokens\<close>, which the loop treats as it treats an empty array.
\<close>

record batch =
  b_comments :: "comment list"
  b_nextToken :: json
  b_replyTokens :: "reply_token list"

definition failed_batch :: batch where
  "failed_batch = \<lparr>b_comments = [], b_nextToken = JNull, b_replyTokens = []\<rparr>"

text \<open>
  \<^verbatim>\<open>if (typeof endpoint === 'string') {
      continuation = endpoint;
  } else {
      continuation = endpoint?.continuationCommand?.token || endpoint?.token;
      clickTrackingParams = endpoint?.continuationCommand?.clickTrackingParams || endpoint?.clickTrackingParams;
  }\<close>
\<close>

definition main_request :: "json \<Rightarrow> request" where
  "main_request endpoint =
     (case endpoint of
        JStr s \<Rightarrow> \<lparr>rq_continuation = endpoint, rq_clickTrackingParams = JNull\<rparr>
      | _ \<Rightarrow> \<lparr>rq_continuation =
                 or_else (walk_path [''continuationCommand'', ''token''] endpoint) (get ''token'' endpoint),
               rq_clickTrackingParams =
                 or_else (walk_path [''continuationCommand'', ''clickTrackingParams''] endpoint)
                         (get ''clickTrackingParams'' endpoint)\<rparr>)"

text \<open>
  \<^verbatim>\<open>function extractNextContinuation(responseData)\<close>: the last of the continuation items of
  action 1 (reload) or else of action 0 (append), and the token it carries.
\<close>

definition last_continuation_item :: "json \<Rightarrow> json option" where
  "last_continuation_item responseData =
     (let reload = or_else (walk_path [''onResponseReceivedEndpoints'', ''1'',
                                       ''reloadContinuationItemsCommand'', ''continuationItems''] responseData)
                           (JArr []);
          continuationItems =
            (if \<not> is_array reload \<or> elems reload = []
             then or_else (walk_path [''onResponseReceivedEndpoints'', ''0'',
                                      ''appendContinuationItemsAction'', ''continuationItems''] responseData)
                          (JArr [])
             else reload)
      in if \<not> is_array continuationItems \<or> elems continuationItems = [] then None
         else Some (last (elems continuationItems)))"

definition extractNextContinuation :: "json \<Rightarrow> json \<times> json" where
  "extractNextContinuation responseData =
     (case last_continuation_item responseData of
        None \<Rightarrow> (JNull, JNull)
      | Some lastItem \<Rightarrow>
          (or_else (walk_path [''continuationItemRenderer'', ''button'', ''buttonRenderer'', ''command'',
                               ''continuationCommand'', ''token''] lastItem)
          (or_else (walk_path [''continuationItemRenderer'', ''continuationEndpoint'',
                               ''continuationCommand'', ''token''] lastItem) JNull),
           or_else (walk_path [''continuationItemRenderer'', ''button'', ''buttonRenderer'', ''command'',
                               ''clickTrackingParams''] lastItem)
          (or_else (walk_path [''continuationItemRenderer'', ''continuationEndpoint'',
                               ''clickTrackingParams''] lastItem) JNull)))"

definition next_token :: "json \<Rightarrow> json" where
  "next_token responseData =
     (case extractNextContinuation responseData of (token, clickTrackingParams) \<Rightarrow>
        if truthy token
        then JObj [(''token'', token), (''clickTrackingParams'', clickTrackingParams),
                   (''continuationCommand'',
                    JObj [(''token'', token), (''clickTrackingParams'', clickTrackingParams)])]
        else JNull)"

text \<open>
  The threads of the response, each parsed at depth 0 with the collector:
  \<^verbatim>\<open>for (const action of actions) {
      const items = action.reloadContinuationItemsCommand?.continuationItems ||
                    action.appendContinuationItemsAction?.continuationItems;
      if (items) {
          for (const item of items) {
              if (item.commentThreadRenderer) {
                  const thread = await processCommentThread(item.commentThreadRenderer, entityStore, 0, replyTokens);
                  if (thread) comments.push(...thread);
              }
          }
      }
  }\<close>
\<close>

definition main_item_step :: "(json \<Rightarrow> comment list io) \<Rightarrow> json \<Rightarrow> comment list \<Rightarrow> comment list io" where
  "main_item_step thread item comments =
     bindS (liftE (read_prop ''commentThreadRenderer'' item)) (\<lambda>threadRenderer.
       if truthy threadRenderer
       then bindS (thread threadRenderer) (\<lambda>ts. returnS (comments @ ts))
       else returnS comments)"

definition main_action_step :: "(json \<Rightarrow> comment list io) \<Rightarrow> json \<Rightarrow> comment list \<Rightarrow> comment list io" where
  "main_action_step thread action comments =
     bindS (liftE (continuation_items action)) (\<lambda>items.
       if truthy items
       then bindS (liftE (iterate items)) (\<lambda>xs. foldS (main_item_step thread) xs comments)
       else returnS comments)"

text \<open>
  \<^verbatim>\<open>async function fetchCommentsViaContinuation(endpoint, entityStore)\<close>. Whatever is thrown
  inside is caught and turned into the failure result.
\<close>

definition fetchCommentsViaContinuation :: "env \<Rightarrow> nat \<Rightarrow> json \<Rightarrow> batch io" where
  "fetchCommentsViaContinuation e fuel endpoint =
     catchS
       (let rq = main_request endpoint in
        if \<not> ytcfg_ready e \<or> \<not> truthy (rq_continuation rq) then returnS failed_batch
        else
          bindS (post e rq) (\<lambda>response.
            if \<not> ok response then returnS failed_batch
            else
              bindS (liftE (response_data response)) (\<lambda>data.
              bindS (merge_response data) (\<lambda>_.
              bindS (\<lambda>s. (Inr (), s\<lparr>replyTokenCollector := []\<rparr>)) (\<lambda>_.
              bindS (let actions = get ''onResponseReceivedEndpoints'' data in
                     if truthy actions
                     then bindS (liftE (iterate actions)) (\<lambda>as.
                            foldS (main_action_step (\<lambda>t. processCommentThread e fuel t 0 True)) as [])
                     else returnS []) (\<lambda>comments.
              (\<lambda>s. (Inr \<lparr>b_comments = comments, b_nextToken = next_token data,
                          b_replyTokens = replyTokenCollector s\<rparr>, s))))))))
       (returnS failed_batch)"

text \<open>
  The session of \<open>extractComments\<close>, from the set-up of the database on. Its two fetch
  functions, the random identifiers, the fate of each transaction (by the order of its
  creation) and \<open>JSON.stringify\<close> are parameters.
\<close>

record params =
  p_fetchMain :: "json \<Rightarrow> batch io"
  p_fetchReplies :: "json \<Rightarrow> json \<Rightarrow> comment list option io"
  p_rnd :: "nat \<Rightarrow> string"
  p_tx :: "nat \<Rightarrow> tx_event"
  p_stringify :: "json \<Rightarrow> json"

record session =
  world :: harvest_state
  sink :: db
  drawn_ids :: nat
  transactions :: nat
  pendingWrites :: "promise list"
  processedReplyTokens :: "json list"
  replyQueue :: "reply_token list"
  mainFetches :: "json list"
  batchNumber :: nat
  totalFetched :: nat
  totalRepliesFetched :: nat

text \<open>
  \<^verbatim>\<open>const writePromise = saveCommentBatch(db, result.comments);
  pendingWrites.push(writePromise);\<close>
  The write is applied to the store at once: the store is read only after the barrier, and
  transactions on it run in the order of their creation.
\<close>

definition schedule_write :: "params \<Rightarrow> comment list \<Rightarrow> session \<Rightarrow> session" where
  "schedule_write P comments ss =
     (let r = saveCommentBatch (p_rnd P) (p_tx P (transactions ss)) (sink ss) comments (drawn_ids ss)
      in ss\<lparr>sink := sr_store r, drawn_ids := sr_drawn r, transactions := Suc (transactions ss),
             pendingWrites := pendingWrites ss @ [sr_handle r]\<rparr>)"

text \<open>
  \<^verbatim>\<open>const tokenKey = replyToken.token?.continuationCommand?.token ||
                   replyToken.token?.token ||
                   JSON.stringify(replyToken.token);
  if (processedReplyTokens.has(tokenKey)) continue;
  processedReplyTokens.add(tokenKey);
  replyQueue.add(async () => { ... });\<close>
  The queue is the list of the tasks added, in order; \<open>drain\<close> below runs them.
\<close>

definition tokenKey :: "(json \<Rightarrow> json) \<Rightarrow> reply_token \<Rightarrow> json" where
  "tokenKey stringify replyToken =
     or_else (walk_path [''continuationCommand'', ''token''] (rt_token replyToken))
    (or_else (get ''token'' (rt_token replyToken))
             (stringify (rt_token replyToken)))"

definition enqueue :: "params \<Rightarrow> reply_token \<Rightarrow> session \<Rightarrow> session" where
  "enqueue P replyToken ss =
     (let key = tokenKey (p_stringify P) replyToken in
      if key \<in> set (processedReplyTokens ss) then ss
      else ss\<lparr>processedReplyTokens := processedReplyTokens ss @ [key],
              replyQueue := replyQueue ss @ [replyToken]\<rparr>)"

text \<open>
  The pipelined loop. \<open>currentToken\<close> is the token of \<open>currentPromise\<close>, the fetch in
  flight; the fetch for the next token is issued (and logged in \<open>mainFetches\<close>) as soon as
  the result is there, before the batch is processed.
  \<^verbatim>\<open>while (currentPromise) {
      const result = await currentPromise;
      let nextPromise = null;
      if (result?.nextToken) nextPromise = fetchCommentsViaContinuation(result.nextToken, entityStore);
      if (result && result.comments.length > 0) { ...write... }
      if (result?.replyTokens && result.replyTokens.length > 0) { ...enqueue... }
      currentPromise = nextPromise;
      batchNumber++;
      if (batchNumber > 100000) break; // Safety
  }\<close>
\<close>

definition process_batch :: "params \<Rightarrow> batch \<Rightarrow> session \<Rightarrow> session" where
  "process_batch P result ss =
     (let ss1 = (if truthy (b_nextToken result)
                 then ss\<lparr>mainFetches := mainFetches ss @ [b_nextToken result]\<rparr> else ss);
          ss2 = (if b_comments result \<noteq> []
                 then (schedule_write P (b_comments result) ss1)
                        \<lparr>totalFetched := totalFetched ss1 + length (b_comments result)\<rparr>
                 else ss1)
      in fold (enqueue P) (b_replyTokens result) ss2)"

function walk :: "params \<Rightarrow> json \<Rightarrow> nat \<Rightarrow> session \<Rightarrow> error + session" where
  "walk P currentToken n ss =
     (case p_fetchMain P currentToken (world ss) of
        (Inl e, w) \<Rightarrow> Inl e
      | (Inr result, w) \<Rightarrow>
          if truthy (b_nextToken result) \<and> \<not> n + 1 > 100000
          then walk P (b_nextToken result) (n + 1) (process_batch P result (ss\<lparr>world := w\<rparr>))
          else Inr ((process_batch P result (ss\<lparr>world := w\<rparr>))\<lparr>batchNumber := n + 1\<rparr>))"
  by pat_completeness auto
termination
  by (relation "measure (\<lambda>(P, t, n, ss). 100001 - n)") auto

text \<open>
  \<open>await replyQueue.onIdle()\<close>: every task of the queue has run.
  \<^verbatim>\<open>async () => {
      try {
          const replies = await fetchReplies(replyToken.token, entityStore, replyToken.parentId);
          if (replies && replies.length > 0) {
              const replyWritePromise = saveCommentBatch(db, replies);
              pendingWrites.push(replyWritePromise);
              totalRepliesFetched += replies.length;
          }
      } catch (error) { console.error(...); }
  }\<close>
\<close>

definition task_done :: "params \<Rightarrow> comment list option \<Rightarrow> session \<Rightarrow> session" where
  "task_done P replies ss =
     (case replies of
        None \<Rightarrow> ss
      | Some rs \<Rightarrow>
          if rs \<noteq> []
          then (schedule_write P rs ss)\<lparr>totalRepliesFetched := totalRepliesFetched ss + length rs\<rparr>
          else ss)"

fun drain :: "params \<Rightarrow> reply_token list \<Rightarrow> session \<Rightarrow> error + session" where
  "drain P [] ss = Inr ss"
| "drain P (replyToken # rest) ss =
     (case p_fetchReplies P (rt_token replyToken) (rt_parentId replyToken) (world ss) of
        (Inl e, w) \<Rightarrow> if e = OutOfFuel then Inl e else drain P rest (ss\<lparr>world := w\<rparr>)
      | (Inr replies, w) \<Rightarrow> drain P rest (task_done P replies (ss\<lparr>world := w\<rparr>)))"

text \<open>
  The emergency scrape reads the rendered threads. Of each it needs the trimmed text of
  six elements, absent when the element is.
\<close>

record dom_thread =
  content_text :: "string option"
  author_text :: "string option"
  published_time_text :: "string option"
  vote_count_middle :: "string option"
  author_href :: "string option"
  author_img_src :: "string option"

definition or_empty :: "string option \<Rightarrow> string \<Rightarrow> json" where
  "or_empty v d = (case v of None \<Rightarrow> JStr d | Some s \<Rightarrow> if s = [] then JStr d else JStr s)"

fun emergency_scrape :: "(nat \<Rightarrow> string) \<Rightarrow> dom_thread list \<Rightarrow> nat \<Rightarrow> comment list" where
  "emergency_scrape rnd [] n = []"
| "emergency_scrape rnd (thread # threads) n =
     (case (content_text thread, author_text thread) of
        (Some content, Some author) \<Rightarrow>
          if content \<noteq> [] \<and> author \<noteq> []
          then \<lparr>c_id = JStr (''scraped-'' @ rnd n), c_author = JStr author, c_text = JStr content,
                c_time = or_empty (published_time_text thread) [],
                c_likes = or_empty (vote_count_middle thread) ''0'',
                c_authorUrl = or_empty (author_href thread) [],
                c_isChannelOwner = JBool False, c_isMember = JBool False, c_member = JUndef,
                c_authorImg = or_empty (author_img_src thread) [],
                c_isReply = JBool False, c_parentId = JUndef, c_replies = JArr []\<rparr>
               # emergency_scrape rnd threads (Suc n)
          else emergency_scrape rnd threads n
      | _ \<Rightarrow> emergency_scrape rnd threads n)"

text \<open>
  The end of the session: the write barrier, the final read, the fallback.
  \<^verbatim>\<open>await Promise.all(pendingWrites);
  const finalComments = await getAllComments(db);
  if (finalComments.length === 0) { ...emergency DOM scrape... }
  return finalComments.length > 0 ? finalComments : null;\<close>
  \<open>Promise.all\<close> rejects if a handle is rejected; the \<open>catch\<close> of \<open>extractComments\<close> then
  returns \<open>null\<close>, and the store is never read.
\<close>

record extraction =
  x_returned :: "comment list option"
  x_snapshot :: "comment list option"
  x_fallback_ran :: bool
  x_session :: session

definition finish :: "params \<Rightarrow> dom_thread list \<Rightarrow> session \<Rightarrow> extraction" where
  "finish P rendered ss =
     (if Rejected \<in> set (pendingWrites ss)
      then \<lparr>x_returned = None, x_snapshot = None, x_fallback_ran = False, x_session = ss\<rparr>
      else
        let finalComments = getAllComments (sink ss) in
        if length finalComments = 0
        then (let scraped = finalComments @ emergency_scrape (p_rnd P) rendered (drawn_ids ss) in
              \<lparr>x_returned = (if length scraped > 0 then Some scraped else None),
               x_snapshot = Some finalComments, x_fallback_ran = True, x_session = ss\<rparr>)
        else \<lparr>x_returned = Some finalComments,
              x_snapshot = Some finalComments, x_fallback_ran = False, x_session = ss\<rparr>)"

text \<open>
  \<open>extractComments\<close> from \<^verbatim>\<open>const db = await initDB();\<close> on, given the continuation token
  and the comments of the rendered page that the first part has found.
  \<^verbatim>\<open>await clearCommentStore(db);
  if (comments.length > 0) { await saveCommentBatch(db, comments); ... }\<close>
\<close>

definition start_session :: "harvest_state \<Rightarrow> db \<Rightarrow> session" where
  "start_session w store =
     \<lparr>world = w, sink = clearCommentStore store, drawn_ids = 0, transactions = 0, pendingWrites = [],
      processedReplyTokens = [], replyQueue = [], mainFetches = [], batchNumber = 1,
      totalFetched = 0, totalRepliesFetched = 0\<rparr>"

definition save_initial :: "params \<Rightarrow> comment list \<Rightarrow> session \<Rightarrow> error + session" where
  "save_initial P comments ss =
     (if comments \<noteq> [] then
        (let r = saveCommentBatch (p_rnd P) (p_tx P (transactions ss)) (sink ss) comments (drawn_ids ss)
         in if sr_handle r = Rejected then Inl DataError
            else Inr (ss\<lparr>sink := sr_store r, drawn_ids := sr_drawn r, transactions := Suc (transactions ss),
                         totalFetched := totalFetched ss + length comments\<rparr>))
      else Inr ss)"

definition extractComments ::
  "params \<Rightarrow> dom_thread list \<Rightarrow> json \<Rightarrow> comment list \<Rightarrow> harvest_state \<Rightarrow> db \<Rightarrow> error + extraction" where
  "extractComments P rendered continuationToken comments w store =
     (case bindE (save_initial P comments (start_session w store)) (\<lambda>ss0.
           bindE (walk P continuationToken 1 (ss0\<lparr>mainFetches := [continuationToken]\<rparr>)) (\<lambda>ss1.
           drain P (replyQueue ss1) ss1)) of
        Inl e \<Rightarrow> if e = OutOfFuel then Inl OutOfFuel
                 else Inr \<lparr>x_returned = None, x_snapshot = None, x_fallback_ran = False,
                           x_session = start_session w store\<rparr>
      | Inr ss \<Rightarrow> Inr (finish P rendered ss))"

text \<open>The parameters of a session on a page \<open>e\<close>.\<close>

definition page_params :: "env \<Rightarrow> nat \<Rightarrow> (nat \<Rightarrow> string) \<Rightarrow> (nat \<Rightarrow> tx_event) \<Rightarrow> (json \<Rightarrow> json) \<Rightarrow> params" where
  "page_params e fuel rnd tx stringify =
     \<lparr>p_fetchMain = fetchCommentsViaContinuation e fuel, p_fetchReplies = fetchReplies e fuel,
      p_rnd = rnd, p_tx = tx, p_stringify = stringify\<rparr>"


text \<open>
  A remote that serves \<open>N\<close> empty pages under one token: page number \<open>fetch_calls + 1\<close> is
  the last if it is the \<open>N\<close>-th.
\<close>

definition paged :: "nat \<Rightarrow> json \<Rightarrow> batch io" where
  "paged N t =
     (\<lambda>w. (Inr \<lparr>b_comments = [],
                 b_nextToken = (if Suc (fetch_calls w) < N then JStr ''T'' else JNull),
                 b_replyTokens = []\<rparr>,
           w\<lparr>fetch_calls := Suc (fetch_calls w)\<rparr>))"

definition no_replies :: "json \<Rightarrow> json \<Rightarrow> comment list option io" where
  "no_replies token parent = returnS None"

definition paged_params :: "nat \<Rightarrow> params" where
  "paged_params N =
     \<lparr>p_fetchMain = paged N, p_fetchReplies = no_replies, p_rnd = rnd_demo,
      p_tx = (\<lambda>k. Complete), p_stringify = (\<lambda>v. JStr ''?'')\<rparr>"

text \<open>
  A whole session on the page \<open>demo_env\<close>, from the seed \<open>T0\<close>: every transaction
  completes, and no token needs \<open>JSON.stringify\<close>.
\<close>

definition all_complete :: "nat \<Rightarrow> tx_event" where
  "all_complete k = Complete"

definition stringify_unused :: "json \<Rightarrow> json" where
  "stringify_unused v = JStr ''?''"

definition session_params :: params where
  "session_params = page_params demo_env 2 rnd_demo all_complete stringify_unused"

subsection \<open>Properties of the walk\<close>

declare walk.simps [simp del]

lemma schedule_write_fields [simp]:
  "world (schedule_write P cs ss) = world ss"
  "mainFetches (schedule_write P cs ss) = mainFetches ss"
  "processedReplyTokens (schedule_write P cs ss) = processedReplyTokens ss"
  "replyQueue (schedule_write P cs ss) = replyQueue ss"
  by (simp_all add: schedule_write_def Let_def)

lemma enqueue_fields [simp]:
  "world (enqueue P rt ss) = world ss"
  "mainFetches (enqueue P rt ss) = mainFetches ss"
  "sink (enqueue P rt ss) = sink ss"
  by (simp_all add: enqueue_def Let_def)

lemma fold_enqueue_fields [simp]:
  "world (fold (enqueue P) rts ss) = world ss"
  "mainFetches (fold (enqueue P) rts ss) = mainFetches ss"
  "sink (fold (enqueue P) rts ss) = sink ss"
  by (induction rts arbitrary: ss) simp_all

lemma process_batch_fields [simp]:
  "world (process_batch P b ss) = world ss"
  "mainFetches (process_batch P b ss) =
     mainFetches ss @ (if truthy (b_nextToken b) then [b_nextToken b] else [])"
  by (simp_all add: process_batch_def Let_def)




lemma p_fetchMain_paged [simp]: "p_fetchMain (paged_params N) = paged N"
  by (simp add: paged_params_def)

lemma world_start [simp]: "world (start_session w store) = w" "mainFetches (start_session w store) = []"
  by (simp_all add: start_session_def)




subsection \<open>Properties of the session\<close>

lemma enqueue_known:
  "tokenKey (p_stringify P) rt \<in> set (processedReplyTokens ss) \<Longrightarrow> enqueue P rt ss = ss"
  by (simp add: enqueue_def)

lemma enqueue_new:
  "tokenKey (p_stringify P) rt \<notin> set (processedReplyTokens ss) \<Longrightarrow>
   replyQueue (enqueue P rt ss) = replyQueue ss @ [rt] \<and>
   processedReplyTokens (enqueue P rt ss) = processedReplyTokens ss @ [tokenKey (p_stringify P) rt]"
  by (simp add: enqueue_def)

definition queue_inv :: "params \<Rightarrow> session \<Rightarrow> bool" where
  "queue_inv P ss \<longleftrightarrow>
     distinct (map (tokenKey (p_stringify P)) (replyQueue ss)) \<and>
     set (map (tokenKey (p_stringify P)) (replyQueue ss)) = set (processedReplyTokens ss)"

lemma queue_inv_enqueue: "queue_inv P ss \<Longrightarrow> queue_inv P (enqueue P rt ss)"
  by (auto simp: queue_inv_def enqueue_def Let_def)

lemma queue_inv_fold_enqueue: "queue_inv P ss \<Longrightarrow> queue_inv P (fold (enqueue P) rts ss)"
  by (induction rts arbitrary: ss) (simp_all add: queue_inv_enqueue)

lemma queue_inv_cong:
  "replyQueue ss' = replyQueue ss \<Longrightarrow> processedReplyTokens ss' = processedReplyTokens ss \<Longrightarrow>
   queue_inv P ss \<Longrightarrow> queue_inv P ss'"
  by (simp add: queue_inv_def)

lemma queue_inv_process_batch: "queue_inv P ss \<Longrightarrow> queue_inv P (process_batch P b ss)"
  unfolding process_batch_def Let_def
  by (rule queue_inv_fold_enqueue) (auto elim!: queue_inv_cong [rotated 2])

lemma queue_inv_walk: "walk P t n ss = Inr ss' \<Longrightarrow> queue_inv P ss \<Longrightarrow> queue_inv P ss'"
proof (induction P t n ss rule: walk.induct)
  case (1 P t n ss)
  obtain r w where f: "p_fetchMain P t (world ss) = (r, w)" by (cases "p_fetchMain P t (world ss)")
  show ?case
  proof (cases r)
    case (Inl e)
    then show ?thesis using "1.prems" f by (subst (asm) walk.simps) simp
  next
    case (Inr b)
    have q: "queue_inv P (process_batch P b (ss\<lparr>world := w\<rparr>))"
      using "1.prems"(2) by (intro queue_inv_process_batch) (auto elim!: queue_inv_cong [rotated 2])
    show ?thesis
    proof (cases "truthy (b_nextToken b) \<and> \<not> n + 1 > 100000")
      case True
      then have "walk P (b_nextToken b) (n + 1) (process_batch P b (ss\<lparr>world := w\<rparr>)) = Inr ss'"
        using "1.prems" f Inr by (subst (asm) walk.simps) simp
      then show ?thesis using "1.IH" [OF f [symmetric] Inr True] q by blast
    next
      case False
      then have "ss' = (process_batch P b (ss\<lparr>world := w\<rparr>))\<lparr>batchNumber := n + 1\<rparr>"
        using "1.prems" f Inr by (subst (asm) walk.simps) (simp split: if_splits)
      then show ?thesis using q by (auto elim!: queue_inv_cong [rotated 2])
    qed
  qed
qed

lemma task_done_queue [simp]:
  "replyQueue (task_done P replies ss) = replyQueue ss"
  "processedReplyTokens (task_done P replies ss) = processedReplyTokens ss"
  by (simp_all add: task_done_def split: option.splits)

lemma drain_queue:
  "drain P rts ss = Inr ss' \<Longrightarrow>
   replyQueue ss' = replyQueue ss \<and> processedReplyTokens ss' = processedReplyTokens ss"
proof (induction rts arbitrary: ss)
  case Nil
  then show ?case by simp
next
  case (Cons rt rts)
  obtain r w where f: "p_fetchReplies P (rt_token rt) (rt_parentId rt) (world ss) = (r, w)"
    by (cases "p_fetchReplies P (rt_token rt) (rt_parentId rt) (world ss)")
  show ?case
  proof (cases r)
    case (Inl e)
    then have "drain P rts (ss\<lparr>world := w\<rparr>) = Inr ss'"
      using Cons.prems f by (simp split: if_splits)
    from Cons.IH [OF this] show ?thesis by simp
  next
    case (Inr replies)
    then have "drain P rts (task_done P replies (ss\<lparr>world := w\<rparr>)) = Inr ss'"
      using Cons.prems f by simp
    from Cons.IH [OF this] show ?thesis by simp
  qed
qed

lemma queue_inv_start: "queue_inv P (start_session w store)"
  by (simp add: queue_inv_def start_session_def)

lemma queue_inv_extractComments:
  assumes "extractComments P rendered t cs w store = Inr x"
  shows "queue_inv P (x_session x)"
proof (cases "bindE (save_initial P cs (start_session w store)) (\<lambda>ss0.
           bindE (walk P t 1 (ss0\<lparr>mainFetches := [t]\<rparr>)) (\<lambda>ss1. drain P (replyQueue ss1) ss1))")
  case (Inl e)
  then have "x_session x = start_session w store"
    using assms by (auto simp: extractComments_def split: if_splits)
  then show ?thesis by (simp add: queue_inv_start)
next
  case (Inr ss)
  then obtain ss0 ss1 where
    0: "save_initial P cs (start_session w store) = Inr ss0" and
    1: "walk P t 1 (ss0\<lparr>mainFetches := [t]\<rparr>) = Inr ss1" and
    2: "drain P (replyQueue ss1) ss1 = Inr ss"
    by (auto simp: bindE_eq_Inr)
  have "queue_inv P ss0"
    using 0 queue_inv_start [of P w store]
    by (auto simp: save_initial_def Let_def split: if_splits elim!: queue_inv_cong [rotated 2])
  then have "queue_inv P (ss0\<lparr>mainFetches := [t]\<rparr>)" by (auto elim!: queue_inv_cong [rotated 2])
  then have "queue_inv P ss1" using 1 queue_inv_walk by blast
  then have "queue_inv P ss" using drain_queue [OF 2] by (auto elim!: queue_inv_cong [rotated 2])
  moreover have "x_session x = ss"
    using assms Inr by (auto simp: extractComments_def finish_def Let_def split: if_splits)
  ultimately show ?thesis by simp
qed

subsection \<open>The session on \<open>demo_env\<close>, step by step\<close>

definition demo_root :: "string \<Rightarrow> comment" where
  "demo_root c =
     blank\<lparr>c_id := JStr c, c_author := JStr ''Unknown'', c_text := JStr [], c_time := JStr [],
           c_likes := JStr ''0'', c_authorUrl := JStr [], c_isChannelOwner := JBool False,
           c_isMember := JBool False, c_member := JStr [], c_authorImg := JStr [],
           c_isReply := JBool False\<rparr>"

definition demo_reply :: "string \<Rightarrow> json \<Rightarrow> comment" where
  "demo_reply i parent =
     blank\<lparr>c_id := JStr i, c_author := JStr ''Unknown'', c_text := JStr [], c_time := JStr [],
           c_likes := JStr ''0'', c_authorUrl := JStr [], c_isChannelOwner := JBool False,
           c_isMember := JBool False, c_member := JStr [],
           c_isReply := JBool True, c_parentId := parent\<rparr>"

definition T1_token :: json where
  "T1_token = JObj [(''token'', JStr ''T1''), (''clickTrackingParams'', JNull),
                    (''continuationCommand'',
                     JObj [(''token'', JStr ''T1''), (''clickTrackingParams'', JNull)])]"

lemma post_exhausted:
  assumes "\<And>k. failed (net e) (next_url e) rq k"
  shows "post e rq s = (Inr sentinel, s\<lparr>fetch_calls := fetch_calls s + 6\<rparr>)"
proof -
  have "\<forall>i\<le>5. failed (net e) (next_url e) rq (fetch_calls s + i)" using assms by simp
  from fetchWithRetry_exhausted [OF this, of 1000] show ?thesis
    by (cases "fetchWithRetry (net e) (next_url e) rq (fetch_calls s) 5 1000") (simp add: post_def)
qed

lemma truthy_thread_renderer [simp]: "truthy (thread_renderer c r)"
  by (simp add: thread_renderer_def)

lemma demo_thread:
  "processCommentThread demo_env fuel (thread_renderer c r) 0 True
      \<lparr>entityStore = [], fetch_calls = k, reply_log = log, replyTokenCollector = col\<rparr> =
     (Inr [demo_root c],
      \<lparr>entityStore = [], fetch_calls = k, reply_log = log,
       replyTokenCollector = col @ [\<lparr>rt_token = endpoint_json r, rt_parentId = JStr c\<rparr>]\<rparr>)"
  by (subst processCommentThread.simps)
     (simp add: thread_renderer_def demo_root_def demo_defs io_defs json_defs thread_defs resolver_defs
        blank_def)

lemma demo_fetch_T0:
  "fetchCommentsViaContinuation demo_env fuel (JStr ''T0'')
      \<lparr>entityStore = [], fetch_calls = k, reply_log = log, replyTokenCollector = col\<rparr> =
     (Inr \<lparr>b_comments = [demo_root ''c1'', demo_root ''c2''], b_nextToken = T1_token,
           b_replyTokens = [\<lparr>rt_token = endpoint_json ''R1'', rt_parentId = JStr ''c1''\<rparr>,
                            \<lparr>rt_token = endpoint_json ''R2'', rt_parentId = JStr ''c2''\<rparr>]\<rparr>,
      \<lparr>entityStore = [], fetch_calls = Suc k, reply_log = log,
       replyTokenCollector = [\<lparr>rt_token = endpoint_json ''R1'', rt_parentId = JStr ''c1''\<rparr>,
                              \<lparr>rt_token = endpoint_json ''R2'', rt_parentId = JStr ''c2''\<rparr>]\<rparr>)"
  by (simp add: fetchCommentsViaContinuation_def main_request_def main_action_step_def
        main_item_step_def next_token_def extractNextContinuation_def last_continuation_item_def
        T1_token_def demo_defs io_defs json_defs thread_defs post_ok demo_thread)

lemma demo_fetch_T1:
  "fetchCommentsViaContinuation demo_env fuel T1_token
      \<lparr>entityStore = [], fetch_calls = k, reply_log = log, replyTokenCollector = col\<rparr> =
     (Inr failed_batch,
      \<lparr>entityStore = [], fetch_calls = k + 6, reply_log = log, replyTokenCollector = col\<rparr>)"
proof -
  have "post demo_env (main_request T1_token)
          \<lparr>entityStore = [], fetch_calls = k, reply_log = log, replyTokenCollector = col\<rparr> =
        (Inr sentinel, \<lparr>entityStore = [], fetch_calls = k + 6, reply_log = log, replyTokenCollector = col\<rparr>)"
    by (subst post_exhausted)
       (simp_all add: failed_def demo_net_def main_request_def T1_token_def or_else_def)
  then show ?thesis
    by (simp add: fetchCommentsViaContinuation_def io_defs sentinel_def)
       (simp add: main_request_def T1_token_def or_else_def)
qed

definition demo_tasks :: "reply_token list" where
  "demo_tasks = [\<lparr>rt_token = endpoint_json ''R1'', rt_parentId = JStr ''c1''\<rparr>,
                 \<lparr>rt_token = endpoint_json ''R2'', rt_parentId = JStr ''c2''\<rparr>]"

definition demo_walked :: session where
  "demo_walked =
     \<lparr>world = \<lparr>entityStore = [], fetch_calls = 7, reply_log = [], replyTokenCollector = demo_tasks\<rparr>,
      sink = [(JStr ''c1'', demo_root ''c1''), (JStr ''c2'', demo_root ''c2'')],
      drawn_ids = 0, transactions = 1, pendingWrites = [Fulfilled],
      processedReplyTokens = [JStr ''R1'', JStr ''R2''], replyQueue = demo_tasks,
      mainFetches = [JStr ''T0'', T1_token], batchNumber = 3, totalFetched = 2,
      totalRepliesFetched = 0\<rparr>"

definition demo_drained :: session where
  "demo_drained =
     demo_walked
       \<lparr>world := \<lparr>entityStore = [], fetch_calls = 10,
                  reply_log = [JStr ''R1'', JStr ''R2'', JStr ''R2''], replyTokenCollector = demo_tasks\<rparr>,
        sink := [(JStr ''c1'', demo_root ''c1''), (JStr ''c2'', demo_root ''c2''),
                 (JStr ''a'', demo_reply ''a'' (JStr ''c1'')), (JStr ''b'', demo_reply ''b'' (JStr ''c2''))],
        transactions := 3, pendingWrites := [Fulfilled, Fulfilled, Fulfilled],
        totalRepliesFetched := 3\<rparr>"

lemma demo_ids [simp]:
  "c_id (demo_root c) = JStr c" "c_id (demo_reply i parent) = JStr i"
  by (simp_all add: demo_root_def demo_reply_def)

lemma truthy_T1_token [simp]: "truthy T1_token"
  by (simp add: T1_token_def)

lemma session_params_simps [simp]:
  "p_fetchMain session_params = fetchCommentsViaContinuation demo_env 2"
  "p_fetchReplies session_params = fetchReplies demo_env 2"
  "p_rnd session_params = rnd_demo"
  "p_tx session_params = all_complete"
  "p_stringify session_params = stringify_unused"
  by (simp_all add: session_params_def page_params_def)

lemma demo_walk:
  "walk session_params (JStr ''T0'') 1 ((start_session start_state [])\<lparr>mainFetches := [JStr ''T0'']\<rparr>) =
     Inr demo_walked"
  apply (subst walk.simps)
  apply (simp add: start_session_def start_state_def demo_fetch_T0)
  apply (subst walk.simps)
  apply (simp add: demo_fetch_T1 [of _ 1, simplified] failed_batch_def process_batch_def schedule_write_def
      saveCommentBatch_def ensure_id_def put_def enqueue_def tokenKey_def or_else_def all_complete_def
      clearCommentStore_def demo_walked_def demo_tasks_def Let_def)
  done

lemma demo_drain:
  "drain session_params demo_tasks demo_walked = Inr demo_drained"
  by (simp add: demo_tasks_def demo_walked_def demo_drained_def demo_reply_def
        demo_fetch_R1 [of 0, simplified] demo_fetch_R2 [of 1, simplified] task_done_def schedule_write_def
        saveCommentBatch_def ensure_id_def put_def all_complete_def blank_def numeral_2_eq_2)

definition demo_outcome :: extraction where
  "demo_outcome =
     \<lparr>x_returned = Some [demo_root ''c1'', demo_root ''c2'',
                          demo_reply ''a'' (JStr ''c1''), demo_reply ''b'' (JStr ''c2'')],
      x_snapshot = Some [demo_root ''c1'', demo_root ''c2'',
                         demo_reply ''a'' (JStr ''c1''), demo_reply ''b'' (JStr ''c2'')],
      x_fallback_ran = False, x_session = demo_drained\<rparr>"

lemma demo_session:
  "extractComments session_params [] (JStr ''T0'') [] start_state [] = Inr demo_outcome"
proof -
  have q: "replyQueue demo_walked = demo_tasks" by (simp add: demo_walked_def)
  have f: "finish session_params [] demo_drained = demo_outcome"
    by (simp add: finish_def demo_drained_def demo_walked_def getAllComments_def Let_def demo_outcome_def)
  show ?thesis
    using demo_walk by (simp add: extractComments_def save_initial_def q demo_drain f)
qed

text \<open>
  The session from the seed \<open>S0\<close>: one record is harvested, then the fetch of \<open>T1\<close> fails.
  The session from \<open>T1\<close> itself: nothing is harvested, and one thread is on the page.
\<close>

definition lone_outcome :: extraction where
  "lone_outcome =
     \<lparr>x_returned = Some [demo_root ''c3''], x_snapshot = Some [demo_root ''c3''],
      x_fallback_ran = False,
      x_session =
        \<lparr>world = \<lparr>entityStore = [], fetch_calls = 7, reply_log = [], replyTokenCollector = []\<rparr>,
         sink = [(JStr ''c3'', demo_root ''c3'')],
         drawn_ids = 0, transactions = 1, pendingWrites = [Fulfilled],
         processedReplyTokens = [], replyQueue = [],
         mainFetches = [JStr ''S0'', T1_token], batchNumber = 3, totalFetched = 1,
         totalRepliesFetched = 0\<rparr>\<rparr>"

definition lone_batch :: batch where
  "lone_batch = \<lparr>b_comments = [demo_root ''c3''], b_nextToken = T1_token, b_replyTokens = []\<rparr>"

definition demo_dom :: "dom_thread list" where
  "demo_dom = [\<lparr>content_text = Some ''hello'', author_text = Some ''@ann'',
                published_time_text = None, vote_count_middle = None,
                author_href = None, author_img_src = None\<rparr>]"

definition scraped_outcome :: extraction where
  "scraped_outcome =
     \<lparr>x_returned = Some [\<lparr>c_id = JStr ''scraped-z'', c_author = JStr ''@ann'', c_text = JStr ''hello'',
                           c_time = JStr [], c_likes = JStr ''0'', c_authorUrl = JStr [],
                           c_isChannelOwner = JBool False, c_isMember = JBool False, c_member = JUndef,
                           c_authorImg = JStr [], c_isReply = JBool False, c_parentId = JUndef,
                           c_replies = JArr []\<rparr>],
      x_snapshot = Some [], x_fallback_ran = True,
      x_session =
        \<lparr>world = \<lparr>entityStore = [], fetch_calls = 6, reply_log = [], replyTokenCollector = []\<rparr>,
         sink = [], drawn_ids = 0, transactions = 0, pendingWrites = [],
         processedReplyTokens = [], replyQueue = [],
         mainFetches = [T1_token], batchNumber = 2, totalFetched = 0,
         totalRepliesFetched = 0\<rparr>\<rparr>"

lemma demo_lone:
  "processCommentThread demo_env fuel (lone_thread c) 0 True s = (Inr [demo_root c], s)"
  by (subst processCommentThread.simps)
     (simp add: lone_thread_def demo_root_def demo_defs io_defs json_defs thread_defs resolver_defs
        blank_def)

lemma truthy_lone_thread [simp]: "truthy (lone_thread c)"
  by (simp add: lone_thread_def)

lemma demo_fetch_S0:
  "fetchCommentsViaContinuation demo_env fuel (JStr ''S0'')
      \<lparr>entityStore = [], fetch_calls = k, reply_log = log, replyTokenCollector = col\<rparr> =
     (Inr lone_batch,
      \<lparr>entityStore = [], fetch_calls = Suc k, reply_log = log, replyTokenCollector = []\<rparr>)"
  by (simp add: fetchCommentsViaContinuation_def main_request_def main_action_step_def
        main_item_step_def next_token_def extractNextContinuation_def last_continuation_item_def
        T1_token_def lone_batch_def demo_defs io_defs json_defs thread_defs post_ok demo_lone)

lemma lone_session:
  "extractComments session_params [] (JStr ''S0'') [] start_state [] = Inr lone_outcome"
proof -
  have "walk session_params (JStr ''S0'') 1 ((start_session start_state [])\<lparr>mainFetches := [JStr ''S0'']\<rparr>) =
          Inr (x_session lone_outcome)"
    apply (subst walk.simps)
    apply (simp add: start_session_def start_state_def demo_fetch_S0 lone_batch_def)
    apply (subst walk.simps)
    apply (simp add: demo_fetch_T1 [of _ 1, simplified] failed_batch_def process_batch_def schedule_write_def
        saveCommentBatch_def ensure_id_def put_def all_complete_def
        clearCommentStore_def lone_outcome_def Let_def)
    done
  moreover have "finish session_params [] (x_session lone_outcome) = lone_outcome"
    by (simp add: finish_def lone_outcome_def getAllComments_def Let_def)
  ultimately show ?thesis
    by (simp add: extractComments_def save_initial_def lone_outcome_def)
qed

lemma scraped_session:
  "extractComments session_params demo_dom T1_token [] start_state [] = Inr scraped_outcome"
proof -
  have "walk session_params T1_token 1 ((start_session start_state [])\<lparr>mainFetches := [T1_token]\<rparr>) =
          Inr (x_session scraped_outcome)"
    apply (subst walk.simps)
    apply (simp add: start_session_def start_state_def demo_fetch_T1 [of _ 0, simplified] failed_batch_def
        process_batch_def clearCommentStore_def scraped_outcome_def Let_def)
    done
  moreover have "finish session_params demo_dom (x_session scraped_outcome) = scraped_outcome"
    by (simp add: finish_def scraped_outcome_def getAllComments_def Let_def demo_dom_def or_empty_def
          rnd_demo_def)
  ultimately show ?thesis
    by (simp add: extractComments_def save_initial_def scraped_outcome_def)
qed

subsection \<open>A record that has been stored stays\<close>

text \<open>
  \<open>harvested\<close>: the store holds a record, or a write handle is rejected. Nothing after
  \<open>clearCommentStore\<close> removes a record, and a handle, once rejected, stays rejected.
\<close>

definition harvested :: "session \<Rightarrow> bool" where
  "harvested ss \<longleftrightarrow> sink ss \<noteq> [] \<or> Rejected \<in> set (pendingWrites ss)"

lemma update_nonempty: "AList.update k v al \<noteq> []"
  by (cases al) auto

lemma put_each_staged:
  "put_each rnd cs store n = (thrown, staged, n') \<Longrightarrow>
   (store \<noteq> [] \<longrightarrow> staged \<noteq> []) \<and> (cs \<noteq> [] \<longrightarrow> thrown \<noteq> None \<or> staged \<noteq> [])"
proof (induction cs arbitrary: store n)
  case Nil
  then show ?case by simp
next
  case (Cons c cs)
  obtain c' m where e: "ensure_id rnd c n = (c', m)" by (cases "ensure_id rnd c n")
  show ?case
  proof (cases "put c' store")
    case (Inl err)
    then show ?thesis using Cons.prems e by auto
  next
    case (Inr store')
    then have "store' \<noteq> []" by (auto simp: put_def update_nonempty split: if_splits)
    moreover have "put_each rnd cs store' m = (thrown, staged, n')" using Cons.prems e Inr by simp
    ultimately show ?thesis using Cons.IH by blast
  qed
qed

lemma harvested_schedule_write:
  "harvested ss \<Longrightarrow> harvested (schedule_write P cs ss)"
  by (cases "put_each (p_rnd P) cs (sink ss) (drawn_ids ss)")
     (auto simp: harvested_def schedule_write_def saveCommentBatch_def Let_def dest: put_each_staged)

lemma harvested_first_write:
  "cs \<noteq> [] \<Longrightarrow> p_tx P (transactions ss) = Complete \<Longrightarrow> harvested (schedule_write P cs ss)"
  by (cases "put_each (p_rnd P) cs (sink ss) (drawn_ids ss)")
     (auto simp: harvested_def schedule_write_def saveCommentBatch_def Let_def dest: put_each_staged)

lemma harvested_cong:
  "sink ss' = sink ss \<Longrightarrow> pendingWrites ss' = pendingWrites ss \<Longrightarrow> harvested ss \<Longrightarrow> harvested ss'"
  by (simp add: harvested_def)

lemma enqueue_sink [simp]:
  "sink (enqueue P rt ss) = sink ss" "pendingWrites (enqueue P rt ss) = pendingWrites ss"
  by (simp_all add: enqueue_def Let_def)

lemma fold_enqueue_sink [simp]:
  "sink (fold (enqueue P) rts ss) = sink ss"
  "pendingWrites (fold (enqueue P) rts ss) = pendingWrites ss"
  by (induction rts arbitrary: ss) simp_all

lemma harvested_process_batch:
  "harvested ss \<Longrightarrow> harvested (process_batch P b ss)"
proof -
  assume h: "harvested ss"
  let ?ss1 = "if truthy (b_nextToken b) then ss\<lparr>mainFetches := mainFetches ss @ [b_nextToken b]\<rparr> else ss"
  have 1: "harvested ?ss1" using h by (auto simp: harvested_def)
  have "harvested (if b_comments b \<noteq> []
                   then (schedule_write P (b_comments b) ?ss1)
                          \<lparr>totalFetched := totalFetched ?ss1 + length (b_comments b)\<rparr>
                   else ?ss1)"
    using harvested_schedule_write [OF 1, of P "b_comments b"] 1
    by (auto elim!: harvested_cong [rotated 2])
  then show ?thesis
    unfolding process_batch_def Let_def by (rule harvested_cong [rotated 2]) simp_all
qed

lemma harvested_process_first:
  assumes "b_comments b \<noteq> []" "p_tx P (transactions ss) = Complete"
  shows "harvested (process_batch P b ss)"
proof -
  let ?ss1 = "if truthy (b_nextToken b) then ss\<lparr>mainFetches := mainFetches ss @ [b_nextToken b]\<rparr> else ss"
  have "p_tx P (transactions ?ss1) = Complete" using assms by simp
  from harvested_first_write [OF assms(1) this]
  have "harvested ((schedule_write P (b_comments b) ?ss1)
                     \<lparr>totalFetched := totalFetched ?ss1 + length (b_comments b)\<rparr>)"
    by (rule harvested_cong [rotated 2]) simp_all
  then show ?thesis
    unfolding process_batch_def Let_def using assms(1)
    by (auto elim!: harvested_cong [rotated 2])
qed

lemma harvested_walk: "walk P t n ss = Inr ss' \<Longrightarrow> harvested ss \<Longrightarrow> harvested ss'"
proof (induction P t n ss rule: walk.induct)
  case (1 P t n ss)
  obtain r w where f: "p_fetchMain P t (world ss) = (r, w)" by (cases "p_fetchMain P t (world ss)")
  show ?case
  proof (cases r)
    case (Inl e)
    then show ?thesis using "1.prems" f by (subst (asm) walk.simps) simp
  next
    case (Inr b)
    have "harvested (ss\<lparr>world := w\<rparr>)" using "1.prems"(2) by (simp add: harvested_def)
    then have q: "harvested (process_batch P b (ss\<lparr>world := w\<rparr>))" by (rule harvested_process_batch)
    show ?thesis
    proof (cases "truthy (b_nextToken b) \<and> \<not> n + 1 > 100000")
      case True
      then have "walk P (b_nextToken b) (n + 1) (process_batch P b (ss\<lparr>world := w\<rparr>)) = Inr ss'"
        using "1.prems" f Inr by (subst (asm) walk.simps) simp
      then show ?thesis using "1.IH" [OF f [symmetric] Inr True] q by blast
    next
      case False
      then have "ss' = (process_batch P b (ss\<lparr>world := w\<rparr>))\<lparr>batchNumber := n + 1\<rparr>"
        using "1.prems" f Inr by (subst (asm) walk.simps) (simp split: if_splits)
      then show ?thesis using q by (simp add: harvested_def)
    qed
  qed
qed

lemma harvested_walk_first:
  assumes w: "walk P t n ss = Inr ss'"
    and f: "p_fetchMain P t (world ss) = (Inr b, w')"
    and b: "b_comments b \<noteq> []" and c: "p_tx P (transactions ss) = Complete"
  shows "harvested ss'"
proof -
  have q: "harvested (process_batch P b (ss\<lparr>world := w'\<rparr>))"
    by (rule harvested_process_first [OF b]) (simp add: c)
  show ?thesis
  proof (cases "truthy (b_nextToken b) \<and> \<not> n + 1 > 100000")
    case True
    then have "walk P (b_nextToken b) (n + 1) (process_batch P b (ss\<lparr>world := w'\<rparr>)) = Inr ss'"
      using w f by (subst (asm) walk.simps) simp
    then show ?thesis using q by (rule harvested_walk)
  next
    case False
    then have "ss' = (process_batch P b (ss\<lparr>world := w'\<rparr>))\<lparr>batchNumber := n + 1\<rparr>"
      using w f by (subst (asm) walk.simps) (simp split: if_splits)
    then show ?thesis using q by (simp add: harvested_def)
  qed
qed

lemma harvested_task_done: "harvested ss \<Longrightarrow> harvested (task_done P replies ss)"
proof -
  assume h: "harvested ss"
  have "harvested ((schedule_write P rs ss)\<lparr>totalRepliesFetched := n\<rparr>)" for rs n
    using harvested_schedule_write [OF h, of P rs] by (simp add: harvested_def)
  then show ?thesis using h by (simp add: task_done_def split: option.splits)
qed

lemma harvested_drain: "drain P rts ss = Inr ss' \<Longrightarrow> harvested ss \<Longrightarrow> harvested ss'"
proof (induction rts arbitrary: ss)
  case Nil
  then show ?case by simp
next
  case (Cons rt rts)
  obtain r w where f: "p_fetchReplies P (rt_token rt) (rt_parentId rt) (world ss) = (r, w)"
    by (cases "p_fetchReplies P (rt_token rt) (rt_parentId rt) (world ss)")
  have h: "harvested (ss\<lparr>world := w\<rparr>)" using Cons.prems(2) by (simp add: harvested_def)
  show ?case
  proof (cases r)
    case (Inl e)
    then have "drain P rts (ss\<lparr>world := w\<rparr>) = Inr ss'"
      using Cons.prems f by (simp split: if_splits)
    from Cons.IH [OF this h] show ?thesis .
  next
    case (Inr replies)
    then have "drain P rts (task_done P replies (ss\<lparr>world := w\<rparr>)) = Inr ss'"
      using Cons.prems f by simp
    from Cons.IH [OF this harvested_task_done [OF h]] show ?thesis .
  qed
qed

lemma finish_harvested: "harvested ss \<Longrightarrow> \<not> x_fallback_ran (finish P rendered ss)"
  by (auto simp: finish_def harvested_def getAllComments_def Let_def)

lemma finish_gate:
  "x_fallback_ran (finish P rendered ss) \<longleftrightarrow> x_snapshot (finish P rendered ss) = Some []"
  by (auto simp: finish_def Let_def)

lemma finish_snapshot:
  "x_snapshot (finish P rendered ss) = Some s \<Longrightarrow>
   s = getAllComments (sink ss) \<and> Rejected \<notin> set (pendingWrites ss)"
  by (auto simp: finish_def Let_def split: if_splits)

lemma finish_session [simp]: "x_session (finish P rendered ss) = ss"
  by (simp add: finish_def Let_def)

lemma extractComments_cases:
  assumes "extractComments P rendered t cs w store = Inr x"
  shows "(x = \<lparr>x_returned = None, x_snapshot = None, x_fallback_ran = False,
                x_session = start_session w store\<rparr>) \<or>
         (\<exists>ss0 ss1 ss. save_initial P cs (start_session w store) = Inr ss0 \<and>
            walk P t 1 (ss0\<lparr>mainFetches := [t]\<rparr>) = Inr ss1 \<and>
            drain P (replyQueue ss1) ss1 = Inr ss \<and> x = finish P rendered ss)"
proof (cases "bindE (save_initial P cs (start_session w store)) (\<lambda>ss0.
           bindE (walk P t 1 (ss0\<lparr>mainFetches := [t]\<rparr>)) (\<lambda>ss1. drain P (replyQueue ss1) ss1))")
  case (Inl e)
  then show ?thesis using assms by (auto simp: extractComments_def split: if_splits)
next
  case (Inr ss)
  then obtain ss0 ss1 where
    "save_initial P cs (start_session w store) = Inr ss0"
    "walk P t 1 (ss0\<lparr>mainFetches := [t]\<rparr>) = Inr ss1"
    "drain P (replyQueue ss1) ss1 = Inr ss"
    by (auto simp: bindE_eq_Inr)
  moreover have "x = finish P rendered ss" using assms Inr by (simp add: extractComments_def)
  ultimately show ?thesis by blast
qed


subsection \<open>Claims about the session\<close>

text \<open>
  Claim C1, as the code has it. The set \<open>processedReplyTokens\<close> is consulted where a
  descriptor is put on the queue, and only there. (1) At the end of a session the tasks
  that were put on the queue have pairwise different keys, and their keys are exactly the
  members of the set. (2) A descriptor whose key is in the set is dropped: the session is
  left as it was. (3) A descriptor whose key is not in the set becomes the last task of the
  queue, and its key enters the set. The queue runs each of its tasks once, so that one
  reply fetch is started per key; the tokens that a reply fetch meets in a response and
  follows on its own are not looked up in the set.
\<close>

theorem reply_tasks_have_distinct_keys:
  "(extractComments P rendered t cs w store = Inr x \<longrightarrow>
      distinct (map (tokenKey (p_stringify P)) (replyQueue (x_session x))) \<and>
      set (map (tokenKey (p_stringify P)) (replyQueue (x_session x))) =
        set (processedReplyTokens (x_session x))) \<and>
   (tokenKey (p_stringify P) rt \<in> set (processedReplyTokens ss) \<longrightarrow> enqueue P rt ss = ss) \<and>
   (tokenKey (p_stringify P) rt' \<notin> set (processedReplyTokens ss') \<longrightarrow>
      replyQueue (enqueue P rt' ss') = replyQueue ss' @ [rt'] \<and>
      processedReplyTokens (enqueue P rt' ss') =
        processedReplyTokens ss' @ [tokenKey (p_stringify P) rt'])"
  using queue_inv_extractComments [of P rendered t cs w store x] enqueue_known [of P rt ss]
    enqueue_new [of P rt' ss']
  by (simp add: queue_inv_def)

theorem reply_tasks_have_distinct_keys_witness:
  "extractComments session_params [] (JStr ''T0'') [] start_state [] = Inr demo_outcome \<and>
   map (tokenKey (p_stringify session_params)) (replyQueue (x_session demo_outcome)) =
     [JStr ''R1'', JStr ''R2''] \<and>
   distinct (map (tokenKey (p_stringify session_params)) (replyQueue (x_session demo_outcome))) \<and>
   set (map (tokenKey (p_stringify session_params)) (replyQueue (x_session demo_outcome))) =
     set (processedReplyTokens (x_session demo_outcome)) \<and>
   tokenKey (p_stringify session_params) (hd demo_tasks) \<in> set (processedReplyTokens demo_drained) \<and>
   enqueue session_params (hd demo_tasks) demo_drained = demo_drained \<and>
   tokenKey (p_stringify session_params) (hd demo_tasks)
     \<notin> set (processedReplyTokens (start_session start_state [])) \<and>
   replyQueue (enqueue session_params (hd demo_tasks) (start_session start_state [])) = [hd demo_tasks] \<and>
   processedReplyTokens (enqueue session_params (hd demo_tasks) (start_session start_state [])) =
     [JStr ''R1'']"
  using reply_tasks_have_distinct_keys [where P = session_params and rendered = "[]" and t = "JStr ''T0''"
      and cs = "[]" and w = start_state and store = "[]" and x = demo_outcome
      and rt = "hd demo_tasks" and ss = demo_drained
      and rt' = "hd demo_tasks" and ss' = "start_session start_state []"]
    demo_session
  by (simp add: demo_outcome_def demo_drained_def demo_walked_def demo_tasks_def tokenKey_def or_else_def
        start_session_def)

text \<open>
  The claim as stated fails on the session from \<open>T0\<close>: its two tasks have the keys \<open>R1\<close> and
  \<open>R2\<close>, and \<open>R2\<close> is fetched twice, once by the task of \<open>R1\<close>, whose response leads to it,
  and once by its own task.
\<close>

theorem reply_key_fetched_twice_counterexample:
  "map (tokenKey (p_stringify session_params))
       (replyQueue (x_session (projr (extractComments session_params [] (JStr ''T0'') [] start_state [])))) =
     [JStr ''R1'', JStr ''R2''] \<and>
   reply_log (world (x_session (projr (extractComments session_params [] (JStr ''T0'') [] start_state [])))) =
     [JStr ''R1'', JStr ''R2'', JStr ''R2'']"
  by (simp add: demo_session demo_outcome_def demo_drained_def demo_walked_def demo_tasks_def
        tokenKey_def or_else_def)

text \<open>
  Claim C7. (1) In a session that comes to its end, the emergency scrape runs if and only
  if the snapshot that \<open>getAllComments\<close> returned is empty; the snapshot is the content of
  the store, read once no write handle is left unsettled and none is rejected. (When the
  session throws, the store is not read and the scrape does not run.) (2) When the first
  fetch of the session yields at least one comment and the transaction of its write
  completes, the scrape does not run, whatever the later fetches do.
\<close>

theorem fallback_iff_final_snapshot_empty:
  "(extractComments P rendered t cs w store = Inr x \<longrightarrow>
      (x_fallback_ran x \<longleftrightarrow> x_snapshot x = Some []) \<and>
      (\<forall>s. x_snapshot x = Some s \<longrightarrow>
           s = getAllComments (sink (x_session x)) \<and>
           Rejected \<notin> set (pendingWrites (x_session x)))) \<and>
   (extractComments P rendered' t' [] w' store' = Inr x' \<and>
    p_fetchMain P t' w' = (Inr b, w'') \<and> b_comments b \<noteq> [] \<and> p_tx P 0 = Complete \<longrightarrow>
      \<not> x_fallback_ran x')"
proof (rule conjI; rule impI)
  assume "extractComments P rendered t cs w store = Inr x"
  from extractComments_cases [OF this]
  show "(x_fallback_ran x \<longleftrightarrow> x_snapshot x = Some []) \<and>
        (\<forall>s. x_snapshot x = Some s \<longrightarrow>
             s = getAllComments (sink (x_session x)) \<and>
             Rejected \<notin> set (pendingWrites (x_session x)))"
  proof (elim disjE exE conjE)
    assume "x = \<lparr>x_returned = None, x_snapshot = None, x_fallback_ran = False,
                   x_session = start_session w store\<rparr>"
    then show ?thesis by simp
  next
    fix ss assume x: "x = finish P rendered ss"
    show ?thesis
      unfolding x finish_session using finish_gate [of P rendered ss] finish_snapshot [of P rendered ss]
      by blast
  qed
next
  assume a: "extractComments P rendered' t' [] w' store' = Inr x' \<and>
    p_fetchMain P t' w' = (Inr b, w'') \<and> b_comments b \<noteq> [] \<and> p_tx P 0 = Complete"
  from a extractComments_cases [of P rendered' t' "[]" w' store' x']
  consider "\<not> x_fallback_ran x'"
    | ss1 ss where "walk P t' 1 ((start_session w' store')\<lparr>mainFetches := [t']\<rparr>) = Inr ss1"
        "drain P (replyQueue ss1) ss1 = Inr ss" "x' = finish P rendered' ss"
    by (auto simp: save_initial_def)
  then show "\<not> x_fallback_ran x'"
  proof cases
    case 1
    then show ?thesis .
  next
    case 2
    have f: "p_fetchMain P t' (world ((start_session w' store')\<lparr>mainFetches := [t']\<rparr>)) = (Inr b, w'')"
      using a by (simp add: start_session_def)
    have c: "p_tx P (transactions ((start_session w' store')\<lparr>mainFetches := [t']\<rparr>)) = Complete"
      using a by (simp add: start_session_def)
    have b: "b_comments b \<noteq> []" using a by simp
    have "harvested ss1" by (rule harvested_walk_first [OF 2(1) f b c])
    then have "harvested ss" using 2(2) harvested_drain by blast
    then show ?thesis using 2(3) finish_harvested by blast
  qed
qed

theorem fallback_iff_final_snapshot_empty_witness:
  "extractComments session_params demo_dom T1_token [] start_state [] = Inr scraped_outcome \<and>
   x_fallback_ran scraped_outcome \<and> x_snapshot scraped_outcome = Some [] \<and>
   getAllComments (sink (x_session scraped_outcome)) = [] \<and>
   extractComments session_params [] (JStr ''S0'') [] start_state [] = Inr lone_outcome \<and>
   p_fetchMain session_params (JStr ''S0'') start_state =
     (Inr lone_batch, start_state\<lparr>fetch_calls := 1\<rparr>) \<and>
   b_comments lone_batch = [demo_root ''c3''] \<and> p_tx session_params 0 = Complete \<and>
   \<not> x_fallback_ran lone_outcome \<and> x_snapshot lone_outcome = Some [demo_root ''c3'']"
  using fallback_iff_final_snapshot_empty [where P = session_params and rendered = demo_dom
      and t = T1_token and cs = "[]" and w = start_state and store = "[]" and x = scraped_outcome
      and rendered' = "[]" and t' = "JStr ''S0''" and w' = start_state and store' = "[]"
      and x' = lone_outcome and b = lone_batch and w'' = "start_state\<lparr>fetch_calls := 1\<rparr>"]
    scraped_session lone_session
  by (simp add: scraped_outcome_def lone_outcome_def lone_batch_def getAllComments_def all_complete_def
        demo_fetch_S0 start_state_def)
end
